theory Spec2Isabelle
  imports Main
begin

section \<open>JavaScript values, objects and the heap\<close>

text \<open>
  The validation functions of \<^verbatim>\<open>src/lib/stop-watch.js\<close> (lines 355--720) inspect
  arbitrary JavaScript values and rewrite objects and arrays in place. Primitive values
  are modelled directly; objects, arrays and functions live in a heap and are referred to
  by address, so that object identity and in-place mutation are visible.

  Modelling assumptions: numbers are the integer-valued ones plus \<open>NaN\<close>; strings are
  ASCII; an object has only its own properties (no property inherited from a prototype is
  read through \<open>value[key]\<close>), and classes are identified by their names.
\<close>

type_synonym addr = nat

datatype val =
    VUndefined
  | VNull
  | VBool bool
  | VNum int
  | VNaN
  | VBigInt int
  | VStr string
  | VSym string
  | VRef addr

text \<open>
  The kind of a non-array, non-function object: a plain object, an instance of a class
  (its class name followed by the names of its ancestors, and the text \<open>String\<close>
  gives for it), or a constant of an enum class (a direct subclass of \<open>Enum\<close>).
\<close>

datatype kind =
    Plain
  | Inst "string list" string
  | EnumInst string

datatype obj =
    Arr "val list"
  | Fn string string
  | Obj kind "(string \<times> val) list"

record heap =
  cells :: "addr \<Rightarrow> obj"
  top :: addr

definition alloc :: "heap \<Rightarrow> obj \<Rightarrow> heap \<times> val" where
  "alloc h ob = (h\<lparr>cells := (cells h)(top h := ob), top := Suc (top h)\<rparr>, VRef (top h))"

text \<open>Own properties in insertion order: \<open>value[key]\<close> and \<open>value[key] = w\<close>.\<close>

fun getProp :: "(string \<times> val) list \<Rightarrow> string \<Rightarrow> val" where
  "getProp [] k = VUndefined"
| "getProp ((k', w) # ps) k = (if k' = k then w else getProp ps k)"

fun setProp :: "(string \<times> val) list \<Rightarrow> string \<Rightarrow> val \<Rightarrow> (string \<times> val) list" where
  "setProp [] k w = [(k, w)]"
| "setProp ((k', w') # ps) k w = (if k' = k then (k, w) # ps else (k', w') # setProp ps k w)"

definition readField :: "heap \<Rightarrow> val \<Rightarrow> string \<Rightarrow> val" where
  "readField h v k =
     (case v of
        VRef a \<Rightarrow> (case cells h a of Obj _ ps \<Rightarrow> getProp ps k | _ \<Rightarrow> VUndefined)
      | _ \<Rightarrow> VUndefined)"

definition writeField :: "heap \<Rightarrow> val \<Rightarrow> string \<Rightarrow> val \<Rightarrow> heap" where
  "writeField h v k w =
     (case v of
        VRef a \<Rightarrow>
          (case cells h a of
             Obj kd ps \<Rightarrow> h\<lparr>cells := (cells h)(a := Obj kd (setProp ps k w))\<rparr>
           | _ \<Rightarrow> h)
      | _ \<Rightarrow> h)"

section \<open>Runtime type tags: \<open>getType\<close>\<close>

text \<open>
  The values \<open>getType\<close> returns, which are also the built-in type descriptors:
  \<open>undefined\<close>, \<open>null\<close>, \<open>Boolean\<close>, \<open>Number\<close>, \<open>NaN\<close>, \<open>BigInt\<close>, \<open>String\<close>,
  \<open>Symbol\<close>, \<open>Function\<close>, \<open>Object\<close>, \<open>Array\<close>.
\<close>

datatype jstype =
    T_undefined
  | T_null
  | T_Boolean
  | T_Number
  | T_NaN
  | T_BigInt
  | T_String
  | T_Symbol
  | T_Function
  | T_Object
  | T_Array

definition getType :: "heap \<Rightarrow> val \<Rightarrow> jstype" where
  "getType h v =
     (case v of
        VNull \<Rightarrow> T_null
      | VRef a \<Rightarrow> (case cells h a of Arr _ \<Rightarrow> T_Array | Fn _ _ \<Rightarrow> T_Function | Obj _ _ \<Rightarrow> T_Object)
      | VNaN \<Rightarrow> T_NaN
      | VUndefined \<Rightarrow> T_undefined
      | VBool _ \<Rightarrow> T_Boolean
      | VNum _ \<Rightarrow> T_Number
      | VBigInt _ \<Rightarrow> T_BigInt
      | VStr _ \<Rightarrow> T_String
      | VSym _ \<Rightarrow> T_Symbol)"

section \<open>Strings\<close>

text \<open>
  \<open>toUpperCase\<close> and \<open>toLowerCase\<close> on ASCII letters, \<open>startsWith\<close>, the decimal
  text of a number in a template literal, and \<open>Array.prototype.join\<close> on strings.
\<close>

definition lowerLetters :: string where
  "lowerLetters = ''abcdefghijklmnopqrstuvwxyz''"

definition upperLetters :: string where
  "upperLetters = ''ABCDEFGHIJKLMNOPQRSTUVWXYZ''"

definition upperChar :: "char \<Rightarrow> char" where
  "upperChar c = (case map_of (zip lowerLetters upperLetters) c of Some u \<Rightarrow> u | None \<Rightarrow> c)"

definition lowerChar :: "char \<Rightarrow> char" where
  "lowerChar c = (case map_of (zip upperLetters lowerLetters) c of Some l \<Rightarrow> l | None \<Rightarrow> c)"

definition toUpperCase :: "string \<Rightarrow> string" where
  "toUpperCase s = map upperChar s"

definition toLowerCase :: "string \<Rightarrow> string" where
  "toLowerCase s = map lowerChar s"

definition startsWith :: "string \<Rightarrow> string \<Rightarrow> bool" where
  "startsWith s p = (take (length p) s = p)"

definition digitChar :: "nat \<Rightarrow> char" where
  "digitChar n = ''0123456789'' ! (n mod 10)"

fun showNat :: "nat \<Rightarrow> string" where
  "showNat n = (if n < 10 then [digitChar n] else showNat (n div 10) @ [digitChar n])"

definition showInt :: "int \<Rightarrow> string" where
  "showInt i = (if i < 0 then CHR ''-'' # showNat (nat (- i)) else showNat (nat i))"

fun join :: "string \<Rightarrow> string list \<Rightarrow> string" where
  "join sep [] = []"
| "join sep [s] = s"
| "join sep (s # t # ss) = s @ sep @ join sep (t # ss)"

section \<open>The platform's \<open>String\<close> conversion\<close>

text \<open>
  \<open>ToString f st h v\<close> is the text of \<open>v\<close>, or \<open>None\<close> when the conversion throws.
  An array is joined with commas, \<open>null\<close> and \<open>undefined\<close> elements giving the empty
  text and an array that is already being joined (\<open>st\<close>) giving the empty text too. A
  plain object gives \<open>[object Object]\<close>, a class instance its own text, and an enum
  constant what \<open>Enum.toString\<close> (line 699) returns, \<open>this.name\<close>, falling back to
  \<open>Enum.valueOf\<close> (line 708), \<open>this.ordinal\<close>, when the name is an object. The fuel
  \<open>f\<close> bounds the nesting depth; exhausting it is the overflow of the call stack.
\<close>

fun ToString :: "nat \<Rightarrow> addr list \<Rightarrow> heap \<Rightarrow> val \<Rightarrow> string option" where
  "ToString 0 st h v = None"
| "ToString (Suc f) st h v =
     (case v of
        VUndefined \<Rightarrow> Some ''undefined''
      | VNull \<Rightarrow> Some ''null''
      | VBool b \<Rightarrow> Some (if b then ''true'' else ''false'')
      | VNum n \<Rightarrow> Some (showInt n)
      | VNaN \<Rightarrow> Some ''NaN''
      | VBigInt n \<Rightarrow> Some (showInt n)
      | VStr s \<Rightarrow> Some s
      | VSym d \<Rightarrow> None
      | VRef a \<Rightarrow>
          (case cells h a of
             Arr xs \<Rightarrow>
               (if a \<in> set st then Some []
                else map_option (join '','')
                  (those (map (\<lambda>x. if x = VUndefined \<or> x = VNull then Some []
                                      else ToString f (a # st) h x) xs)))
           | Fn nm src \<Rightarrow> Some src
           | Obj Plain ps \<Rightarrow> Some ''[object Object]''
           | Obj (Inst cs str) ps \<Rightarrow> Some str
           | Obj (EnumInst en) ps \<Rightarrow>
               (case getProp ps ''name'' of
                  VRef b \<Rightarrow>
                    (case getProp ps ''ordinal'' of
                       VRef c \<Rightarrow> None
                     | p \<Rightarrow> ToString f st h p)
                | p \<Rightarrow> ToString f st h p)))"

text \<open>\<open>String(value)\<close>: as \<open>ToString\<close>, except that a symbol is described.\<close>

definition String_js :: "heap \<Rightarrow> val \<Rightarrow> string option" where
  "String_js h v =
     (case v of
        VSym d \<Rightarrow> Some (''Symbol('' @ d @ '')'')
      | _ \<Rightarrow> ToString (top h + 2) [] h v)"

text \<open>\<open>value instanceof C\<close>, for a class \<open>C\<close> that is none of the built-in types.\<close>

definition instanceOf :: "heap \<Rightarrow> val \<Rightarrow> string \<Rightarrow> bool" where
  "instanceOf h v cn =
     (case v of
        VRef a \<Rightarrow>
          (case cells h a of
             Obj (Inst cs str) ps \<Rightarrow> cn \<in> set cs
           | Obj (EnumInst en) ps \<Rightarrow> cn = en \<or> cn = ''Enum''
           | _ \<Rightarrow> False)
      | _ \<Rightarrow> False)"

section \<open>Type descriptors\<close>

text \<open>
  The expected type of a check (comment at lines 403--406): a built-in type, an enum
  class with the values of its static properties in order, any other constructor, an
  array of descriptors, or a plain object from field names to descriptors, in the order
  \<open>for ... in\<close> enumerates them. A constructor is its class name, the names of its
  ancestors, and what \<open>new C(value)\<close> does: it throws (\<open>None\<close>), or builds an instance
  with a text and properties.
\<close>

datatype descr =
    Builtin jstype
  | EnumType string "val list"
  | Ctor string "string list" "heap \<Rightarrow> val \<Rightarrow> (string \<times> (string \<times> val) list) option"
  | Union "descr list"
  | Struct "(string \<times> descr) list"

section \<open>\<open>describe\<close>\<close>

definition withArticle :: "string \<Rightarrow> string" where
  "withArticle name =
     (if hd (toLowerCase name) \<in> set ''aeiou'' then ''an '' @ name else ''a '' @ name)"

definition describeType :: "jstype \<Rightarrow> bool \<Rightarrow> string" where
  "describeType t articles =
     (case t of
        T_NaN \<Rightarrow> ''NaN''
      | T_null \<Rightarrow> ''null''
      | T_undefined \<Rightarrow> ''undefined''
      | _ \<Rightarrow>
        (let name =
           (case t of
              T_Array \<Rightarrow> ''array''
            | T_Boolean \<Rightarrow> ''boolean''
            | T_Number \<Rightarrow> ''number''
            | T_BigInt \<Rightarrow> ''bigint''
            | T_String \<Rightarrow> ''string''
            | T_Symbol \<Rightarrow> ''symbol''
            | T_Function \<Rightarrow> ''function''
            | _ \<Rightarrow> ''object'')
         in if articles then withArticle name else name))"

definition joinTypes :: "string list \<Rightarrow> string" where
  "joinTypes types =
     (if length types \<le> 2 then join '' or '' types
      else join '', '' (butlast types) @ '', or '' @ last types)"

text \<open>
  \<open>describe\<close> on a descriptor; \<open>None\<close> when no text comes out. For a class the
  \<open>default\<close> case takes \<open>type.name\<close>, and \<open>name[0].toLowerCase()\<close> throws a TypeError
  when that name is empty. For a struct descriptor \<open>type.name\<close> is the descriptor of
  its field \<open>name\<close> or \<open>undefined\<close>, never a string: with articles
  \<open>name[0].toLowerCase()\<close> throws a TypeError, and without them (which no caller asks
  for on a struct) the result is not a text.
\<close>

fun describe :: "descr \<Rightarrow> bool \<Rightarrow> string option"
  and describeAll :: "descr list \<Rightarrow> bool \<Rightarrow> string list option" where
  "describe (Union ts) articles = map_option joinTypes (describeAll ts articles)"
| "describe (Builtin t) articles = Some (describeType t articles)"
| "describe (EnumType name vs) articles =
     (if articles then (if name = [] then None else Some (withArticle name)) else Some name)"
| "describe (Ctor name anc new) articles =
     (if articles then (if name = [] then None else Some (withArticle name)) else Some name)"
| "describe (Struct fs) articles = None"
| "describeAll [] articles = Some []"
| "describeAll (t # ts) articles =
     (case describe t articles of
        None \<Rightarrow> None
      | Some s \<Rightarrow> map_option ((#) s) (describeAll ts articles))"

section \<open>\<open>Enum.valueOf\<close>\<close>

text \<open>
  \<open>v.name\<close> for a static value \<open>v\<close> of an enum class: reading a property of
  \<open>null\<close> or \<open>undefined\<close> throws (\<open>None\<close>); a function has its name; an array and a
  primitive value have no such property.
\<close>

definition nameOf :: "heap \<Rightarrow> val \<Rightarrow> val option" where
  "nameOf h v =
     (case v of
        VUndefined \<Rightarrow> None
      | VNull \<Rightarrow> None
      | VRef a \<Rightarrow>
          (case cells h a of
             Arr xs \<Rightarrow> Some VUndefined
           | Fn nm src \<Rightarrow> Some (VStr nm)
           | Obj kd ps \<Rightarrow> Some (getProp ps ''name''))
      | _ \<Rightarrow> Some VUndefined)"

text \<open>
  \<open>this.values().find((v) => v.name === name)\<close>, throwing when nothing is found
  (lines 673--680). \<open>None\<close> stands for either exception.
\<close>

fun Enum_valueOf :: "heap \<Rightarrow> val list \<Rightarrow> string \<Rightarrow> val option" where
  "Enum_valueOf h [] name = None"
| "Enum_valueOf h (v # vs) name =
     (case nameOf h v of
        None \<Rightarrow> None
      | Some n \<Rightarrow> if n = VStr name then Some v else Enum_valueOf h vs name)"

section \<open>\<open>checkType\<close>\<close>

datatype exn =
    ValidationError string
  | Error string
  | TypeError
  | ConstructorError

text \<open>
  The result of \<open>checkType\<close>: \<open>{ value }\<close>, \<open>{ error }\<close>, or an exception that
  leaves the function.
\<close>

datatype check =
    Value val
  | Failure string
  | Throws exn

definition mustBe :: "string \<Rightarrow> string \<Rightarrow> jstype \<Rightarrow> string" where
  "mustBe name expected valueType =
     ''The '' @ name @ '' must be '' @ expected @ '', but it was ''
       @ describeType valueType True @ ''.''"

definition mismatch :: "string \<Rightarrow> descr \<Rightarrow> jstype \<Rightarrow> check" where
  "mismatch name expectedType valueType =
     (case describe expectedType True of
        None \<Rightarrow> Throws TypeError
      | Some d \<Rightarrow> Failure (mustBe name d valueType))"

text \<open>
  \<open>checkType\<close> (lines 453--551), with the heap passed through. \<open>JSON.stringify\<close> is
  the platform's and is a parameter: \<open>js h v\<close> is the text the template literal at line
  504 inserts, or \<open>None\<close> when serialising throws. \<open>NaN\<close> as a descriptor is none of the
  built-in types of lines 457--468 and falls through to \<open>ensureUnreachable\<close>.
\<close>

fun checkType :: "(heap \<Rightarrow> val \<Rightarrow> string option) \<Rightarrow> heap \<Rightarrow> val \<Rightarrow> descr \<Rightarrow> string \<Rightarrow> heap \<times> check"
  and checkUnion :: "(heap \<Rightarrow> val \<Rightarrow> string option) \<Rightarrow> heap \<Rightarrow> val \<Rightarrow> descr list \<Rightarrow> string \<Rightarrow> heap \<times> bool + exn"
  and checkFields :: "(heap \<Rightarrow> val \<Rightarrow> string option) \<Rightarrow> heap \<Rightarrow> val \<Rightarrow> (string \<times> descr) list \<Rightarrow> string \<Rightarrow> heap \<times> check"
where
  "checkType js h v (Builtin t) name =
     (if t = T_NaN then (h, Throws (Error ''Unreachable code executed.''))
      else if getType h v = t then (h, Value v)
      else (h, mismatch name (Builtin t) (getType h v)))"
| "checkType js h v (EnumType en vs) name =
     (case String_js h v of
        None \<Rightarrow> (h, mismatch name (EnumType en vs) (getType h v))
      | Some s \<Rightarrow>
          (case Enum_valueOf h vs (toUpperCase s) of
             None \<Rightarrow> (h, mismatch name (EnumType en vs) (getType h v))
           | Some c \<Rightarrow> (h, Value c)))"
| "checkType js h v (Ctor cn anc new) name =
     (if instanceOf h v cn then (h, Value v)
      else
        (case new h v of
           None \<Rightarrow> (h, Throws ConstructorError)
         | Some (str, ps) \<Rightarrow>
             (let (h', convertedValue) = alloc h (Obj (Inst (cn # anc) str) ps)
              in if startsWith (toLowerCase str) ''invalid''
                 then
                   (let error = ''The '' @ name @ '' must be a valid '' @ cn @ '', but it was ''
                          @ describeType (getType h v) True
                    in if getType h v \<noteq> T_null \<and> getType h v \<noteq> T_undefined
                       then
                         (case js h' v of
                            None \<Rightarrow> (h', Throws TypeError)
                          | Some j \<Rightarrow> (h', Failure (error @ '': '' @ j @ ''.'')))
                       else (h', Failure (error @ ''.'')))
                 else (h', Value convertedValue))))"
| "checkType js h v (Union ts) name =
     (case checkUnion js h v ts name of
        Inr e \<Rightarrow> (h, Throws e)
      | Inl (h', True) \<Rightarrow> (h', Value v)
      | Inl (h', False) \<Rightarrow> (h', mismatch name (Union ts) (getType h v)))"
| "checkType js h v (Struct fs) name =
     (if getType h v = T_Object then checkFields js h v fs name
      else (h, mismatch name (Builtin T_Object) (getType h v)))"
| "checkUnion js h v [] name = Inl (h, False)"
| "checkUnion js h v (t # ts) name =
     (case checkType js h v t name of
        (h', Throws e) \<Rightarrow> Inr e
      | (h', Failure msg) \<Rightarrow> checkUnion js h' v ts name
      | (h', Value w) \<Rightarrow> Inl (h', True))"
| "checkFields js h v [] name = (h, Value v)"
| "checkFields js h v ((key, t) # fs) name =
     (case checkType js h (readField h v key) t (name @ ''.'' @ key) of
        (h', Value w) \<Rightarrow> checkFields js (writeField h' v key w) v fs name
      | (h', r) \<Rightarrow> (h', r))"

section \<open>The public functions\<close>

text \<open>
  The option \<open>{ name = 'value' }\<close> of the \<open>ensure\<close> functions is a \<open>string option\<close>;
  a function that throws returns \<open>Inl\<close> of the exception.
\<close>

definition nameOrDefault :: "string option \<Rightarrow> string" where
  "nameOrDefault name = (case name of None \<Rightarrow> ''value'' | Some n \<Rightarrow> n)"

definition throwOrValue :: "check \<Rightarrow> exn + val" where
  "throwOrValue r =
     (case r of
        Failure msg \<Rightarrow> Inl (ValidationError msg)
      | Throws e \<Rightarrow> Inl e
      | Value w \<Rightarrow> Inr w)"

text \<open>\<open>ensureType\<close> (lines 408--414).\<close>

definition ensureType ::
  "(heap \<Rightarrow> val \<Rightarrow> string option) \<Rightarrow> heap \<Rightarrow> val \<Rightarrow> descr \<Rightarrow> string option \<Rightarrow> heap \<times> (exn + val)" where
  "ensureType js h v expectedType name =
     (case checkType js h v expectedType (nameOrDefault name) of
        (h', r) \<Rightarrow> (h', throwOrValue r))"

text \<open>
  \<open>array[index] = w\<close>: an index past the end extends the array, the gap reading as
  \<open>undefined\<close>.
\<close>

definition writeIndex :: "heap \<Rightarrow> addr \<Rightarrow> nat \<Rightarrow> val \<Rightarrow> heap" where
  "writeIndex h a i w =
     (case cells h a of
        Arr xs \<Rightarrow>
          h\<lparr>cells := (cells h)(a := Arr
              (if i < length xs then xs[i := w]
               else xs @ replicate (i - length xs) VUndefined @ [w]))\<rparr>
      | _ \<Rightarrow> h)"

text \<open>
  The callback of \<open>array.forEach\<close> (lines 422--430) over the indices the loop visits;
  an index that is no longer in the array is skipped. \<open>Some e\<close>: the callback threw.
\<close>

fun forEachItem ::
  "(heap \<Rightarrow> val \<Rightarrow> string option) \<Rightarrow> heap \<Rightarrow> addr \<Rightarrow> descr \<Rightarrow> string \<Rightarrow> nat list \<Rightarrow> heap \<times> exn option" where
  "forEachItem js h a expectedType name [] = (h, None)"
| "forEachItem js h a expectedType name (index # rest) =
     (case cells h a of
        Arr xs \<Rightarrow>
          (if index < length xs
           then
             (case checkType js h (xs ! index) expectedType (name @ ''.'' @ showNat index) of
                (h', Failure msg) \<Rightarrow> (h', Some (ValidationError msg))
              | (h', Throws e) \<Rightarrow> (h', Some e)
              | (h', Value w) \<Rightarrow>
                  forEachItem js (writeIndex h' a index w) a expectedType name rest)
           else forEachItem js h a expectedType name rest)
      | _ \<Rightarrow> forEachItem js h a expectedType name rest)"

text \<open>\<open>ensureItemType\<close> (lines 416--432).\<close>

definition ensureItemType ::
  "(heap \<Rightarrow> val \<Rightarrow> string option) \<Rightarrow> heap \<Rightarrow> val \<Rightarrow> descr \<Rightarrow> string option \<Rightarrow> heap \<times> (exn + val)" where
  "ensureItemType js h array expectedType name =
     (case checkType js h array (Builtin T_Array) (nameOrDefault name) of
        (h', Failure msg) \<Rightarrow> (h', Inl (ValidationError msg))
      | (h', Throws e) \<Rightarrow> (h', Inl e)
      | (h', Value w) \<Rightarrow>
          (case array of
             VRef a \<Rightarrow>
               (case cells h' a of
                  Arr xs \<Rightarrow>
                    (case forEachItem js h' a expectedType (nameOrDefault name) [0..<length xs] of
                       (h'', Some e) \<Rightarrow> (h'', Inl e)
                     | (h'', None) \<Rightarrow> (h'', Inr array))
                | _ \<Rightarrow> (h', Inl TypeError))
           | _ \<Rightarrow> (h', Inl TypeError)))"

text \<open>
  \<open>ensureThat\<close> (lines 367--378), with its default message.
\<close>

definition ensureThat :: "'a \<Rightarrow> ('a \<Rightarrow> bool) \<Rightarrow> string option \<Rightarrow> exn + 'a" where
  "ensureThat value predicate message =
     (if \<not> predicate value
      then Inl (ValidationError
             (case message of None \<Rightarrow> ''Expected predicate is not true.'' | Some m \<Rightarrow> m))
      else Inr value)"

text \<open>
  A parameter that is to be an array and has the default \<open>[]\<close>: the caller leaves it
  out (or passes \<open>undefined\<close>), passes an array, or passes any other value.
\<close>

datatype 'a arrayArg =
    Omitted
  | ArrayOf "'a list"
  | NotAnArray

definition orEmptyArray :: "'a arrayArg \<Rightarrow> 'a arrayArg" where
  "orEmptyArray x = (case x of Omitted \<Rightarrow> ArrayOf [] | _ \<Rightarrow> x)"

definition isArray :: "'a arrayArg \<Rightarrow> bool" where
  "isArray x = (case x of ArrayOf xs \<Rightarrow> True | _ \<Rightarrow> False)"

definition elements :: "'a arrayArg \<Rightarrow> 'a list" where
  "elements x = (case x of ArrayOf xs \<Rightarrow> xs | _ \<Rightarrow> [])"

text \<open>
  \<open>ensureArguments\<close> (lines 434--450). The arguments are an array-like list. The two
  \<open>ensureThat\<close> calls come first, then the count, then the loop over
  \<open>expectedTypes\<close>, in which a name that is missing or empty is replaced by the
  argument's number and a missing argument reads as \<open>undefined\<close>.
\<close>

definition argumentName :: "string list \<Rightarrow> nat \<Rightarrow> string" where
  "argumentName names index =
     (if index < length names \<and> names ! index \<noteq> [] then names ! index
      else ''argument #'' @ showNat (index + 1))"

definition argumentAt :: "val list \<Rightarrow> nat \<Rightarrow> val" where
  "argumentAt args index = (if index < length args then args ! index else VUndefined)"

fun forEachExpected ::
  "(heap \<Rightarrow> val \<Rightarrow> string option) \<Rightarrow> heap \<Rightarrow> val list \<Rightarrow> descr list \<Rightarrow> string list \<Rightarrow> nat \<Rightarrow> heap \<times> exn option" where
  "forEachExpected js h args [] names index = (h, None)"
| "forEachExpected js h args (expectedType # rest) names index =
     (case ensureType js h (argumentAt args index) expectedType (Some (argumentName names index)) of
        (h', Inl e) \<Rightarrow> (h', Some e)
      | (h', Inr w) \<Rightarrow> forEachExpected js h' args rest names (index + 1))"

definition ensureArguments ::
  "(heap \<Rightarrow> val \<Rightarrow> string option) \<Rightarrow> heap \<Rightarrow> val list \<Rightarrow> descr arrayArg \<Rightarrow> string arrayArg \<Rightarrow> heap \<times> exn option" where
  "ensureArguments js h args expectedTypes0 names0 =
     (let expectedTypes = orEmptyArray expectedTypes0; names = orEmptyArray names0 in
      case ensureThat expectedTypes isArray (Some ''The expectedTypes must be an array.'') of
        Inl e \<Rightarrow> (h, Some e)
      | Inr et \<Rightarrow>
          (case ensureThat names isArray (Some ''The names must be an array.'') of
             Inl e \<Rightarrow> (h, Some e)
           | Inr ns \<Rightarrow>
               if length args > length (elements expectedTypes)
               then (h, Some (ValidationError
                      (''Too many arguments: expected '' @ showNat (length (elements expectedTypes))
                         @ '', but got '' @ showNat (length args) @ ''.'')))
               else forEachExpected js h args (elements expectedTypes) (elements names) 0))"

text \<open>
  \<open>ensureNonEmpty\<close> (lines 388--401). \<open>value.length\<close> of a string or an array and the
  number of own keys of an object.
\<close>

definition isEmpty :: "heap \<Rightarrow> val \<Rightarrow> bool" where
  "isEmpty h v =
     (case v of
        VStr s \<Rightarrow> length s = 0
      | VRef a \<Rightarrow>
          (case cells h a of
             Arr xs \<Rightarrow> length xs = 0
           | Fn nm src \<Rightarrow> False
           | Obj kd ps \<Rightarrow> length ps = 0)
      | _ \<Rightarrow> False)"

definition ensureNonEmpty ::
  "(heap \<Rightarrow> val \<Rightarrow> string option) \<Rightarrow> heap \<Rightarrow> val \<Rightarrow> string option \<Rightarrow> exn + val" where
  "ensureNonEmpty js h v name =
     (let valueType = getType h v in
      if (valueType = T_String \<and> isEmpty h v)
         \<or> (valueType = T_Array \<and> isEmpty h v)
         \<or> (valueType = T_Object \<and> isEmpty h v)
      then
        (case js h v of
           None \<Rightarrow> Inl TypeError
         | Some j \<Rightarrow> Inl (ValidationError
             (''The '' @ nameOrDefault name @ '' must not be empty, but it was '' @ j @ ''.'')))
      else Inr v)"

section \<open>Sample inputs\<close>

text \<open>
  A heap with nothing allocated, and a serialiser that covers what the examples need of
  \<open>JSON.stringify\<close>: a string without characters to escape, \<open>null\<close>, booleans,
  integers, the empty array and the plain object without keys. It is \<open>None\<close> where
  \<open>JSON.stringify\<close> throws a TypeError, on a BigInt and on an object that refers to
  itself, and on every value that it does not cover.
\<close>

definition emptyHeap :: heap where
  "emptyHeap = \<lparr>cells = (\<lambda>a. Obj Plain []), top = 0\<rparr>"

definition sampleStringify :: "heap \<Rightarrow> val \<Rightarrow> string option" where
  "sampleStringify h v =
     (case v of
        VStr s \<Rightarrow> Some (''\"'' @ s @ ''\"'')
      | VNull \<Rightarrow> Some ''null''
      | VNaN \<Rightarrow> Some ''null''
      | VBool b \<Rightarrow> Some (if b then ''true'' else ''false'')
      | VNum n \<Rightarrow> Some (showInt n)
      | VBigInt n \<Rightarrow> None
      | VRef a \<Rightarrow>
          (case cells h a of
             Arr [] \<Rightarrow> Some ''[]''
           | Obj Plain [] \<Rightarrow> Some ''{}''
           | _ \<Rightarrow> None)
      | _ \<Rightarrow> None)"

text \<open>
  The enum of the tests, \<^verbatim>\<open>class YesNo extends Enum { static YES = new YesNo('YES', 0);
  static NO = new YesNo('NO', 1); }\<close>, and an enum whose constant is not written in
  upper case, \<^verbatim>\<open>class Answer extends Enum { static Yes = new Answer('Yes', 0); }\<close>.
\<close>

definition yesNoHeap :: heap where
  "yesNoHeap =
     \<lparr>cells = (\<lambda>a. Obj Plain [])
        (0 := Obj (EnumInst ''YesNo'') [(''name'', VStr ''YES''), (''ordinal'', VNum 0)],
         Suc 0 := Obj (EnumInst ''YesNo'') [(''name'', VStr ''NO''), (''ordinal'', VNum 1)]),
      top = 2\<rparr>"

definition YesNo :: descr where
  "YesNo = EnumType ''YesNo'' [VRef 0, VRef (Suc 0)]"

definition answerHeap :: heap where
  "answerHeap =
     \<lparr>cells = (\<lambda>a. Obj Plain [])
        (0 := Obj (EnumInst ''Answer'') [(''name'', VStr ''Yes''), (''ordinal'', VNum 0)]),
      top = 1\<rparr>"

definition Answer :: descr where
  "Answer = EnumType ''Answer'' [VRef 0]"

text \<open>
  The specification's reading of how a value is resolved as a member of an enum: an
  identity match against the constants first, then the value's text compared with each
  constant's name regardless of case.
\<close>

definition sameNameIgnoringCase :: "heap \<Rightarrow> string \<Rightarrow> val \<Rightarrow> bool" where
  "sameNameIgnoringCase h s c =
     (case nameOf h c of Some (VStr n) \<Rightarrow> toLowerCase n = toLowerCase s | _ \<Rightarrow> False)"

definition resolveMember_spec :: "heap \<Rightarrow> val list \<Rightarrow> val \<Rightarrow> val option" where
  "resolveMember_spec h vs v =
     (if v \<in> set vs then Some v
      else (case String_js h v of
              None \<Rightarrow> None
            | Some s \<Rightarrow> find (sameNameIgnoringCase h s) vs))"

text \<open>
  A stand-in for the platform's \<open>Date\<close> on the inputs of the tests: \<open>null\<close> gives the
  epoch, \<open>undefined\<close> and the text \<open>no-date\<close> give an invalid date, and the text
  \<open>2024-08-23T20:01\<close> gives that date. A plain object is converted to the text
  \<open>[object Object]\<close> first and gives an invalid date as well. Every other input is left
  out (as a constructor that throws).
\<close>

definition newDate :: "heap \<Rightarrow> val \<Rightarrow> (string \<times> (string \<times> val) list) option" where
  "newDate h v =
     (case v of
        VNull \<Rightarrow> Some (''Thu Jan 01 1970 00:00:00 GMT+0000 (Coordinated Universal Time)'', [])
      | VUndefined \<Rightarrow> Some (''Invalid Date'', [])
      | VStr s \<Rightarrow>
          (if s = ''2024-08-23T20:01''
           then Some (''Fri Aug 23 2024 20:01:00 GMT+0000 (Coordinated Universal Time)'', [])
           else if s = ''no-date'' then Some (''Invalid Date'', [])
           else None)
      | VRef a \<Rightarrow>
          (case cells h a of
             Obj Plain ps \<Rightarrow> Some (''Invalid Date'', [])
           | _ \<Rightarrow> None)
      | _ \<Rightarrow> None)"

definition Date :: descr where
  "Date = Ctor ''Date'' [] newDate"

text \<open>Whether the cell at an address holds an object that is neither an array nor a function.\<close>

definition isObjCell :: "heap \<Rightarrow> addr \<Rightarrow> bool" where
  "isObjCell h a = (case cells h a of Obj kd ps \<Rightarrow> True | _ \<Rightarrow> False)"

text \<open>The object \<^verbatim>\<open>{ name: 'John', age: '42' }\<close> of the struct test.\<close>

definition userHeap :: heap where
  "userHeap =
     \<lparr>cells = (\<lambda>a. Obj Plain [])
        (0 := Obj Plain [(''name'', VStr ''John''), (''age'', VStr ''42'')]),
      top = Suc 0\<rparr>"

text \<open>The arrays \<^verbatim>\<open>['John', 123]\<close> and \<^verbatim>\<open>['John', 'Jane']\<close> of the item tests.\<close>

definition mixedHeap :: heap where
  "mixedHeap = \<lparr>cells = (\<lambda>a. Obj Plain [])(0 := Arr [VStr ''John'', VNum 123]), top = Suc 0\<rparr>"

definition namesHeap :: heap where
  "namesHeap = \<lparr>cells = (\<lambda>a. Obj Plain [])(0 := Arr [VStr ''John'', VStr ''Jane'']), top = Suc 0\<rparr>"

text \<open>An empty array and an empty plain object.\<close>

definition emptiesHeap :: heap where
  "emptiesHeap = \<lparr>cells = (\<lambda>a. Obj Plain [])(0 := Arr []), top = 2\<rparr>"

text \<open>
  The object \<^verbatim>\<open>const cyclic = {}; cyclic.self = cyclic;\<close>, which refers to itself.
\<close>

definition cyclicHeap :: heap where
  "cyclicHeap = \<lparr>cells = (\<lambda>a. Obj Plain [])(0 := Obj Plain [(''self'', VRef 0)]), top = Suc 0\<rparr>"

text \<open>
  A stand-in for the platform's \<open>URL\<close> on a text that is not a URL, where the
  constructor throws a TypeError. No other input is covered.
\<close>

definition newURL :: "heap \<Rightarrow> val \<Rightarrow> (string \<times> (string \<times> val) list) option" where
  "newURL h v = None"

definition URL :: descr where
  "URL = Ctor ''URL'' [] newURL"

text \<open>
  Notions for the repeated check of a struct. A value is primitive when it is not a
  reference. One heap extends another when it has only allocated more; \<open>extendsBut a\<close>
  also lets the properties of the plain object at \<open>a\<close> differ. \<open>agreeBelow t a\<close>
  relates two heaps that hold the same objects at the addresses below \<open>t\<close> other than
  \<open>a\<close>.
\<close>

definition isPrimitive :: "val \<Rightarrow> bool" where
  "isPrimitive v = (case v of VRef a \<Rightarrow> False | _ \<Rightarrow> True)"

definition isPlainCell :: "heap \<Rightarrow> addr \<Rightarrow> bool" where
  "isPlainCell h a = (case cells h a of Obj Plain ps \<Rightarrow> True | _ \<Rightarrow> False)"

definition extends :: "heap \<Rightarrow> heap \<Rightarrow> bool" where
  "extends h h' = (top h \<le> top h' \<and> (\<forall>b<top h. cells h' b = cells h b))"

definition extendsBut :: "addr \<Rightarrow> heap \<Rightarrow> heap \<Rightarrow> bool" where
  "extendsBut a h h' =
     (top h \<le> top h' \<and> (\<forall>b<top h. b \<noteq> a \<longrightarrow> cells h' b = cells h b)
      \<and> isPlainCell h a \<and> isPlainCell h' a)"

definition agreeBelow :: "addr \<Rightarrow> addr \<Rightarrow> heap \<Rightarrow> heap \<Rightarrow> bool" where
  "agreeBelow t a h g =
     (t \<le> top h \<and> t \<le> top g \<and> (\<forall>b<t. b \<noteq> a \<longrightarrow> cells g b = cells h b))"

text \<open>
  A static value of the enum class \<open>en\<close> that is one of its constants: an object of the
  class, allocated below \<open>t\<close>, whose name is a string.
\<close>

definition isEnumConstant :: "addr \<Rightarrow> heap \<Rightarrow> string \<Rightarrow> val \<Rightarrow> bool" where
  "isEnumConstant t h en c =
     (case c of
        VRef b \<Rightarrow>
          b < t \<and>
          (case cells h b of
             Obj (EnumInst en') ps \<Rightarrow>
               en' = en \<and> (case getProp ps ''name'' of VStr nm \<Rightarrow> True | _ \<Rightarrow> False)
           | _ \<Rightarrow> False)
      | _ \<Rightarrow> False)"

text \<open>
  A descriptor without struct descriptors inside, whose enum classes hold only their
  constants and whose constructors give the same result for a primitive argument whatever
  the heap.
\<close>

fun leafReady :: "addr \<Rightarrow> heap \<Rightarrow> descr \<Rightarrow> bool"
  and leafReadys :: "addr \<Rightarrow> heap \<Rightarrow> descr list \<Rightarrow> bool" where
  "leafReady t h (Builtin ty) = True"
| "leafReady t h (EnumType en vs) = list_all (isEnumConstant t h en) vs"
| "leafReady t h (Ctor cn anc new) = (\<forall>g g' v. isPrimitive v \<longrightarrow> new g v = new g' v)"
| "leafReady t h (Union ts) = leafReadys t h ts"
| "leafReady t h (Struct fs) = False"
| "leafReadys t h [] = True"
| "leafReadys t h (d # ds) = (leafReady t h d \<and> leafReadys t h ds)"

text \<open>
  A field of the object at \<open>a\<close> that is ready for its descriptor: under a built-in
  descriptor any primitive value or allocated reference, under any other descriptor a
  primitive value.
\<close>

definition fieldReady :: "addr \<Rightarrow> heap \<Rightarrow> addr \<Rightarrow> string \<times> descr \<Rightarrow> bool" where
  "fieldReady t h a f =
     (leafReady t h (snd f) \<and>
      (case snd f of
         Builtin ty \<Rightarrow> (case readField h (VRef a) (fst f) of VRef b \<Rightarrow> b < t | _ \<Rightarrow> True)
       | _ \<Rightarrow> isPrimitive (readField h (VRef a) (fst f))))"

definition sameKind :: "check \<Rightarrow> check \<Rightarrow> bool" where
  "sameKind r r' =
     (case r of
        Value w \<Rightarrow> (case r' of Value w' \<Rightarrow> True | _ \<Rightarrow> False)
      | Failure m \<Rightarrow> (case r' of Failure m' \<Rightarrow> True | _ \<Rightarrow> False)
      | Throws e \<Rightarrow> (case r' of Throws e' \<Rightarrow> True | _ \<Rightarrow> False))"

text \<open>\<open>JSON.stringify\<close> of a primitive value does not depend on the heap.\<close>

definition pureOnPrimitives :: "(heap \<Rightarrow> val \<Rightarrow> string option) \<Rightarrow> bool" where
  "pureOnPrimitives js = (\<forall>h h' v. isPrimitive v \<longrightarrow> js h v = js h' v)"

text \<open>The object at an address has an own property of the given name.\<close>

definition hasKey :: "heap \<Rightarrow> addr \<Rightarrow> string \<Rightarrow> bool" where
  "hasKey h a k = (case cells h a of Obj kd ps \<Rightarrow> k \<in> fst ` set ps | _ \<Rightarrow> False)"

text \<open>
  An object with two fields that hold the same object,
  \<^verbatim>\<open>const o = { d: '2024-08-23T20:01' }; const x = { p: o, q: o };\<close>, with a struct
  descriptor that reads the shared object once as a string and once as a date,
  \<^verbatim>\<open>{ p: { d: String }, q: { d: Date } }\<close>.
\<close>

definition sharedHeap :: heap where
  "sharedHeap =
     \<lparr>cells = (\<lambda>a. Obj Plain [])
        (0 := Obj Plain [(''p'', VRef (Suc 0)), (''q'', VRef (Suc 0))],
         Suc 0 := Obj Plain [(''d'', VStr ''2024-08-23T20:01'')]),
      top = 2\<rparr>"

definition sharedStruct :: descr where
  "sharedStruct =
     Struct [(''p'', Struct [(''d'', Builtin T_String)]), (''q'', Struct [(''d'', Date)])]"

text \<open>
  The object \<^verbatim>\<open>{ name: 'John', birthDate: '2024-08-23T20:01' }\<close> and the descriptor
  \<^verbatim>\<open>{ name: String, birthDate: Date }\<close>.
\<close>

definition personHeap :: heap where
  "personHeap =
     \<lparr>cells = (\<lambda>a. Obj Plain [])
        (0 := Obj Plain [(''name'', VStr ''John''), (''birthDate'', VStr ''2024-08-23T20:01'')]),
      top = Suc 0\<rparr>"

definition personStruct :: descr where
  "personStruct = Struct [(''name'', Builtin T_String), (''birthDate'', Date)]"

section \<open>Built-in types\<close>

lemma ensureType_Builtin:
  "t \<noteq> T_NaN \<Longrightarrow>
   ensureType js h v (Builtin t) name =
     (h, if getType h v = t then Inr v
         else Inl (ValidationError
           (mustBe (nameOrDefault name) (describeType t True) (getType h v))))"
  by (simp add: ensureType_def throwOrValue_def mismatch_def)

lemma withArticle_names:
  "withArticle ''array'' = ''an array''"
  "withArticle ''boolean'' = ''a boolean''"
  "withArticle ''number'' = ''a number''"
  "withArticle ''bigint'' = ''a bigint''"
  "withArticle ''string'' = ''a string''"
  "withArticle ''symbol'' = ''a symbol''"
  "withArticle ''function'' = ''a function''"
  "withArticle ''object'' = ''an object''"
  by code_simp+

lemma describeType_articles:
  "describeType ty True =
     (case ty of
        T_undefined \<Rightarrow> ''undefined''
      | T_null \<Rightarrow> ''null''
      | T_Boolean \<Rightarrow> ''a boolean''
      | T_Number \<Rightarrow> ''a number''
      | T_NaN \<Rightarrow> ''NaN''
      | T_BigInt \<Rightarrow> ''a bigint''
      | T_String \<Rightarrow> ''a string''
      | T_Symbol \<Rightarrow> ''a symbol''
      | T_Function \<Rightarrow> ''a function''
      | T_Object \<Rightarrow> ''an object''
      | T_Array \<Rightarrow> ''an array'')"
  by (cases ty) (simp_all add: describeType_def withArticle_names)

text \<open>
  C1. For each of the ten built-in descriptors \<open>t\<close> (every tag but \<open>NaN\<close>) and every
  value \<open>v\<close>, \<open>ensureType\<close> returns \<open>v\<close> itself, leaving the heap as it was, exactly when
  the tag of \<open>v\<close> is \<open>t\<close>: the tag is \<open>null\<close> for \<open>null\<close>; \<open>array\<close> for an
  array, \<open>function\<close> for a function and \<open>object\<close> for any other object; \<open>NaN\<close> for
  \<open>NaN\<close>, apart from \<open>number\<close>; and what \<open>typeof\<close> says for the other primitive
  values. Otherwise it throws a validation error with the message \<open>The {name} must be
  {a/an descriptor}, but it was {a/an tag}.\<close>, the name being \<open>value\<close> when none is
  given, and the texts being \<open>undefined\<close>, \<open>null\<close> and \<open>NaN\<close> without an article,
  \<open>an object\<close>, \<open>an array\<close>, and \<open>a\<close> before the other names.
\<close>

theorem ensureType_builtin_iff_tag:
  "t \<noteq> T_NaN \<Longrightarrow>
   (let tag =
      (case v of
         VNull \<Rightarrow> T_null
       | VRef a \<Rightarrow>
           (case cells h a of
              Arr xs \<Rightarrow> T_Array
            | Fn nm src \<Rightarrow> T_Function
            | Obj kd ps \<Rightarrow> T_Object)
       | VNaN \<Rightarrow> T_NaN
       | VUndefined \<Rightarrow> T_undefined
       | VBool b \<Rightarrow> T_Boolean
       | VNum n \<Rightarrow> T_Number
       | VBigInt n \<Rightarrow> T_BigInt
       | VStr s \<Rightarrow> T_String
       | VSym d \<Rightarrow> T_Symbol);
      phrase = (\<lambda>ty.
        case ty of
          T_undefined \<Rightarrow> ''undefined''
        | T_null \<Rightarrow> ''null''
        | T_Boolean \<Rightarrow> ''a boolean''
        | T_Number \<Rightarrow> ''a number''
        | T_NaN \<Rightarrow> ''NaN''
        | T_BigInt \<Rightarrow> ''a bigint''
        | T_String \<Rightarrow> ''a string''
        | T_Symbol \<Rightarrow> ''a symbol''
        | T_Function \<Rightarrow> ''a function''
        | T_Object \<Rightarrow> ''an object''
        | T_Array \<Rightarrow> ''an array'')
    in ((ensureType js h v (Builtin t) name = (h, Inr v)) = (tag = t))
       \<and> ensureType js h v (Builtin t) name =
           (h, if tag = t then Inr v
               else Inl (ValidationError
                 (''The '' @ (case name of None \<Rightarrow> ''value'' | Some n \<Rightarrow> n) @ '' must be ''
                    @ phrase t @ '', but it was '' @ phrase tag @ ''.''))))"
proof -
  assume t: "t \<noteq> T_NaN"
  have eq: "ensureType js h v (Builtin t) name =
     (h, if getType h v = t then Inr v
         else Inl (ValidationError
           (''The '' @ (case name of None \<Rightarrow> ''value'' | Some n \<Rightarrow> n) @ '' must be ''
              @ describeType t True @ '', but it was ''
              @ describeType (getType h v) True @ ''.'')))"
    using t by (simp add: ensureType_Builtin mustBe_def nameOrDefault_def)
  show ?thesis
    unfolding eq Let_def describeType_articles getType_def by simp
qed

theorem ensureType_builtin_iff_tag_witness:
  "T_Number \<noteq> T_NaN
   \<and> ensureType sampleStringify emptyHeap VNaN (Builtin T_Number) None =
       (emptyHeap, Inl (ValidationError ''The value must be a number, but it was NaN.''))
   \<and> ensureType sampleStringify emptyHeap (VNum 42) (Builtin T_Number) None =
       (emptyHeap, Inr (VNum 42))
   \<and> T_undefined \<noteq> T_NaN
   \<and> ensureType sampleStringify emptyHeap VNull (Builtin T_undefined) None =
       (emptyHeap, Inl (ValidationError ''The value must be undefined, but it was null.''))"
proof -
  have n: "T_Number \<noteq> T_NaN" by simp
  have u: "T_undefined \<noteq> T_NaN" by simp
  from ensureType_builtin_iff_tag [OF n, where v = VNaN and h = emptyHeap and js = sampleStringify and name = None]
  have a: "ensureType sampleStringify emptyHeap VNaN (Builtin T_Number) None =
       (emptyHeap, Inl (ValidationError ''The value must be a number, but it was NaN.''))"
    by (simp add: Let_def)
  from ensureType_builtin_iff_tag [OF n, where v = "VNum 42" and h = emptyHeap and js = sampleStringify and name = None]
  have b: "ensureType sampleStringify emptyHeap (VNum 42) (Builtin T_Number) None =
       (emptyHeap, Inr (VNum 42))"
    by (simp add: Let_def)
  from ensureType_builtin_iff_tag [OF u, where v = VNull and h = emptyHeap and js = sampleStringify and name = None]
  have c: "ensureType sampleStringify emptyHeap VNull (Builtin T_undefined) None =
       (emptyHeap, Inl (ValidationError ''The value must be undefined, but it was null.''))"
    by (simp add: Let_def)
  from n a b u c show ?thesis by blast
qed

section \<open>Union types\<close>

lemma checkUnion_describable:
  "checkUnion js h v ts name = Inl (h', False) \<Longrightarrow> describe (Union ts) True = Some d \<Longrightarrow>
   checkType js h v (Union ts) name = (h', Failure (mustBe name d (getType h v)))"
  by (auto simp: mismatch_def)

text \<open>
  C2. When every member of a union fails, the message is to name the joined descriptions
  of the members. For a union with a struct member \<open>describe\<close> has no case:
  \<^verbatim>\<open>ensureType(true, [String, { name: String }])\<close> reaches \<open>describe\<close> for the struct,
  whose \<open>default\<close> case takes \<open>type.name\<close>, and \<open>name[0].toLowerCase()\<close> throws a
  TypeError instead of the validation error.
\<close>

theorem checkType_union_struct_member_throws:
  "ensureType sampleStringify emptyHeap (VBool True)
     (Union [Builtin T_String, Struct [(''name'', Builtin T_String)]]) None =
     (emptyHeap, Inl TypeError)"
  by (simp add: ensureType_def throwOrValue_def mismatch_def getType_def emptyHeap_def
      nameOrDefault_def)

section \<open>Enum types\<close>

lemma Enum_valueOf_member:
  "Enum_valueOf h vs n = Some c \<Longrightarrow> c \<in> set vs \<and> nameOf h c = Some (VStr n)"
  by (induction vs) (auto split: option.splits if_splits)

lemma Enum_valueOf_find:
  "\<forall>c\<in>set vs. nameOf h c \<noteq> None \<Longrightarrow>
   Enum_valueOf h vs n = find (\<lambda>c. nameOf h c = Some (VStr n)) vs"
  by (induction vs) (auto split: option.splits)

lemma checkType_EnumType_cases:
  "en \<noteq> [] \<Longrightarrow>
   checkType js h v (EnumType en vs) name =
     (h, case String_js h v of
           None \<Rightarrow> Failure (''The '' @ name @ '' must be '' @ withArticle en
                  @ '', but it was '' @ describeType (getType h v) True @ ''.'')
         | Some s \<Rightarrow>
             (case Enum_valueOf h vs (toUpperCase s) of
                None \<Rightarrow> Failure (''The '' @ name @ '' must be '' @ withArticle en
                  @ '', but it was '' @ describeType (getType h v) True @ ''.'')
              | Some c \<Rightarrow> Value c))"
  by (simp add: mismatch_def mustBe_def split: option.splits)

text \<open>
  C3, as stated, fails on the code: for the enum \<open>Answer\<close> with the constant \<open>Yes\<close>,
  the specification's reading resolves the constant to itself, while \<open>checkType\<close> looks
  for a constant named \<open>YES\<close>, finds none, and reports \<open>an Answer\<close>.
\<close>

theorem checkType_enum_identity_counterexample:
  "resolveMember_spec answerHeap [VRef 0] (VRef 0) = Some (VRef 0)
   \<and> checkType sampleStringify answerHeap (VRef 0) Answer ''value'' =
       (answerHeap, Failure ''The value must be an Answer, but it was an object.'')"
proof -
  have s: "String_js answerHeap (VRef 0) = Some ''Yes''"
    by code_simp
  have u: "toUpperCase ''Yes'' = ''YES''"
    by code_simp
  have n: "nameOf answerHeap (VRef 0) = Some (VStr ''Yes'')"
    by code_simp
  have a: "withArticle ''Answer'' = ''an Answer''"
    by code_simp
  have t: "getType answerHeap (VRef 0) = T_Object"
    by code_simp
  have d: "describeType T_Object True = ''an object''"
    by code_simp
  have en: "''Answer'' \<noteq> []" by simp
  have c: "checkType sampleStringify answerHeap (VRef 0) Answer ''value'' =
       (answerHeap, Failure ''The value must be an Answer, but it was an object.'')"
    unfolding Answer_def checkType_EnumType_cases [OF en] by (simp add: s u n a t d)
  show ?thesis
    using c by (simp add: resolveMember_spec_def)
qed

text \<open>
  C3, amended. \<open>checkType\<close> on an enum descriptor takes the text of the value in upper
  case and returns the first static value of the enum class whose name is exactly that
  text; no identity match is tried, so a constant resolves to itself when its name is
  written in upper case. When the conversion or the lookup throws, the message is
  \<open>The {name} must be {a/an EnumTypeName}, but it was {a/an tag}.\<close>, the article
  following the first letter of the enum's name.
\<close>

theorem checkType_enum_by_upper_case_name:
  "en \<noteq> [] \<Longrightarrow>
   (checkType js h v (EnumType en vs) name = (h, Value c) \<longrightarrow>
      (\<exists>s. String_js h v = Some s \<and> c \<in> set vs
           \<and> nameOf h c = Some (VStr (toUpperCase s))))
   \<and> (String_js h v = Some s \<and> (\<forall>c\<in>set vs. nameOf h c \<noteq> None) \<longrightarrow>
        checkType js h v (EnumType en vs) name =
          (h, case find (\<lambda>c. nameOf h c = Some (VStr (toUpperCase s))) vs of
                Some c \<Rightarrow> Value c
              | None \<Rightarrow> Failure (''The '' @ name @ '' must be '' @ withArticle en
                  @ '', but it was '' @ describeType (getType h v) True @ ''.'')))
   \<and> ((\<forall>c. checkType js h v (EnumType en vs) name \<noteq> (h, Value c)) \<longrightarrow>
        checkType js h v (EnumType en vs) name =
          (h, Failure (''The '' @ name @ '' must be '' @ withArticle en
             @ '', but it was '' @ describeType (getType h v) True @ ''.'')))"
proof -
  assume en: "en \<noteq> []"
  let ?msg = "''The '' @ name @ '' must be '' @ withArticle en
             @ '', but it was '' @ describeType (getType h v) True @ ''.''"
  have eq: "checkType js h v (EnumType en vs) name =
     (h, case String_js h v of
           None \<Rightarrow> Failure ?msg
         | Some s \<Rightarrow>
             (case Enum_valueOf h vs (toUpperCase s) of
                None \<Rightarrow> Failure ?msg
              | Some c \<Rightarrow> Value c))"
    using en by (rule checkType_EnumType_cases)
  have one: "checkType js h v (EnumType en vs) name = (h, Value c) \<longrightarrow>
      (\<exists>s. String_js h v = Some s \<and> c \<in> set vs
           \<and> nameOf h c = Some (VStr (toUpperCase s)))"
    unfolding eq by (auto split: option.splits dest: Enum_valueOf_member)
  have two: "String_js h v = Some s \<and> (\<forall>c\<in>set vs. nameOf h c \<noteq> None) \<longrightarrow>
        checkType js h v (EnumType en vs) name =
          (h, case find (\<lambda>c. nameOf h c = Some (VStr (toUpperCase s))) vs of
                Some c \<Rightarrow> Value c
              | None \<Rightarrow> Failure ?msg)"
    unfolding eq using Enum_valueOf_find [of vs h "toUpperCase s"]
    by (auto split: option.splits)
  have three: "(\<forall>c. checkType js h v (EnumType en vs) name \<noteq> (h, Value c)) \<longrightarrow>
        checkType js h v (EnumType en vs) name = (h, Failure ?msg)"
    unfolding eq by (auto split: option.splits)
  from one two three show ?thesis by blast
qed

theorem checkType_enum_by_upper_case_name_witness:
  "''YesNo'' \<noteq> []
   \<and> String_js yesNoHeap (VStr ''no'') = Some ''no''
   \<and> nameOf yesNoHeap (VRef 0) \<noteq> None \<and> nameOf yesNoHeap (VRef (Suc 0)) \<noteq> None
   \<and> checkType sampleStringify yesNoHeap (VStr ''no'') YesNo ''value'' =
       (yesNoHeap, Value (VRef (Suc 0)))"
proof -
  have en: "''YesNo'' \<noteq> []" by simp
  have s: "String_js yesNoHeap (VStr ''no'') = Some ''no''"
    by code_simp
  have n0: "nameOf yesNoHeap (VRef 0) = Some (VStr ''YES'')"
    by code_simp
  have n1: "nameOf yesNoHeap (VRef (Suc 0)) = Some (VStr ''NO'')"
    by code_simp
  have u: "toUpperCase ''no'' = ''NO''"
    by code_simp
  have pre: "String_js yesNoHeap (VStr ''no'') = Some ''no''
      \<and> (\<forall>c\<in>set [VRef 0, VRef (Suc 0)]. nameOf yesNoHeap c \<noteq> None)"
    by (simp add: s n0 n1)
  have f: "find (\<lambda>c. nameOf yesNoHeap c = Some (VStr (toUpperCase ''no''))) [VRef 0, VRef (Suc 0)]
      = Some (VRef (Suc 0))"
    by (simp add: n0 n1 u)
  from checkType_enum_by_upper_case_name
         [OF en, of sampleStringify yesNoHeap "VStr ''no''" "[VRef 0, VRef (Suc 0)]" "''value''" _ "''no''"]
  have "checkType sampleStringify yesNoHeap (VStr ''no'') (EnumType ''YesNo'' [VRef 0, VRef (Suc 0)])
      ''value'' =
      (yesNoHeap, case find (\<lambda>c. nameOf yesNoHeap c = Some (VStr (toUpperCase ''no'')))
           [VRef 0, VRef (Suc 0)] of
         Some c \<Rightarrow> Value c
       | None \<Rightarrow> Failure (''The '' @ ''value'' @ '' must be '' @ withArticle ''YesNo''
           @ '', but it was '' @ describeType (getType yesNoHeap (VStr ''no'')) True @ ''.''))"
    using pre by blast
  then have r: "checkType sampleStringify yesNoHeap (VStr ''no'') YesNo ''value'' =
       (yesNoHeap, Value (VRef (Suc 0)))"
    unfolding YesNo_def f by simp
  show ?thesis
    using en s n0 n1 r by simp
qed

section \<open>Constructor types\<close>

lemma alloc_fresh:
  "alloc h ob = (h', w) \<Longrightarrow> w = VRef (top h) \<and> cells h' (top h) = ob \<and> top h' = Suc (top h)"
  by (auto simp: alloc_def)

lemma String_js_Inst:
  "cells h a = Obj (Inst cs str) ps \<Longrightarrow> String_js h (VRef a) = Some str"
  by (simp add: String_js_def)

text \<open>
  What \<open>checkType\<close> does on a constructor descriptor \<open>C\<close> when the constructor
  returns and, on the failing branch, \<open>JSON.stringify\<close> returns: a value that is
  already an instance of \<open>C\<close> is returned as it is. Otherwise \<open>new C(v)\<close> builds a
  new object, an instance of \<open>C\<close> at a fresh address; it is returned unless its text
  starts with \<open>invalid\<close> in any case, and then the check fails with \<open>The {name} must
  be a valid {TypeName}, but it was {a/an tag}\<close>, followed by \<open>: {JSON of v}\<close> exactly
  when the tag of \<open>v\<close> is neither \<open>null\<close> nor \<open>undefined\<close>, and a full stop.
\<close>

lemma checkType_constructor:
  "(instanceOf h v cn \<longrightarrow> checkType js h v (Ctor cn anc new) name = (h, Value v))
   \<and> (\<not> instanceOf h v cn \<and> new h v = Some (str, ps)
        \<and> alloc h (Obj (Inst (cn # anc) str) ps) = (h', w) \<longrightarrow>
        w = VRef (top h) \<and> instanceOf h' w cn \<and> String_js h' w = Some str
        \<and> (\<not> startsWith (toLowerCase str) ''invalid'' \<longrightarrow>
             checkType js h v (Ctor cn anc new) name = (h', Value w))
        \<and> (startsWith (toLowerCase str) ''invalid''
             \<and> (getType h v = T_null \<or> getType h v = T_undefined) \<longrightarrow>
             checkType js h v (Ctor cn anc new) name =
               (h', Failure (''The '' @ name @ '' must be a valid '' @ cn @ '', but it was ''
                  @ describeType (getType h v) True @ ''.'')))
        \<and> (startsWith (toLowerCase str) ''invalid''
             \<and> getType h v \<noteq> T_null \<and> getType h v \<noteq> T_undefined \<and> js h' v = Some j \<longrightarrow>
             checkType js h v (Ctor cn anc new) name =
               (h', Failure (''The '' @ name @ '' must be a valid '' @ cn @ '', but it was ''
                  @ describeType (getType h v) True @ '': '' @ j @ ''.''))))"
proof (intro conjI impI)
  assume "instanceOf h v cn"
  then show "checkType js h v (Ctor cn anc new) name = (h, Value v)"
    by simp
next
  assume a: "\<not> instanceOf h v cn \<and> new h v = Some (str, ps)
        \<and> alloc h (Obj (Inst (cn # anc) str) ps) = (h', w)"
  then have fresh: "w = VRef (top h)" "cells h' (top h) = Obj (Inst (cn # anc) str) ps"
    using alloc_fresh [of h "Obj (Inst (cn # anc) str) ps" h' w] by simp_all
  show "w = VRef (top h)"
    by (rule fresh)
  show "instanceOf h' w cn"
    using fresh by (simp add: instanceOf_def)
  show "String_js h' w = Some str"
    using fresh String_js_Inst [of h' "top h"] by simp
  { assume "\<not> startsWith (toLowerCase str) ''invalid''"
    then show "checkType js h v (Ctor cn anc new) name = (h', Value w)"
      using a by simp }
  { assume "startsWith (toLowerCase str) ''invalid''
             \<and> (getType h v = T_null \<or> getType h v = T_undefined)"
    then show "checkType js h v (Ctor cn anc new) name =
               (h', Failure (''The '' @ name @ '' must be a valid '' @ cn @ '', but it was ''
                  @ describeType (getType h v) True @ ''.''))"
      using a by auto }
  { assume "startsWith (toLowerCase str) ''invalid''
             \<and> getType h v \<noteq> T_null \<and> getType h v \<noteq> T_undefined \<and> js h' v = Some j"
    then show "checkType js h v (Ctor cn anc new) name =
               (h', Failure (''The '' @ name @ '' must be a valid '' @ cn @ '', but it was ''
                  @ describeType (getType h v) True @ '': '' @ j @ ''.''))"
      using a by simp }
qed

lemma checkType_constructor_no_date:
  "\<not> instanceOf emptyHeap (VStr ''no-date'') ''Date''
   \<and> newDate emptyHeap (VStr ''no-date'') = Some (''Invalid Date'', [])
   \<and> startsWith (toLowerCase ''Invalid Date'') ''invalid''
   \<and> getType emptyHeap (VStr ''no-date'') = T_String
   \<and> checkType sampleStringify emptyHeap (VStr ''no-date'') Date ''value'' =
       (fst (alloc emptyHeap (Obj (Inst [''Date''] ''Invalid Date'') [])),
        Failure ''The value must be a valid Date, but it was a string: \"no-date\".'')"
proof -
  define h' where "h' = fst (alloc emptyHeap (Obj (Inst [''Date''] ''Invalid Date'') []))"
  define w where "w = snd (alloc emptyHeap (Obj (Inst [''Date''] ''Invalid Date'') []))"
  have al: "alloc emptyHeap (Obj (Inst [''Date''] ''Invalid Date'') []) = (h', w)"
    by (simp add: h'_def w_def)
  have ni: "\<not> instanceOf emptyHeap (VStr ''no-date'') ''Date''"
    by (simp add: instanceOf_def)
  have nw: "newDate emptyHeap (VStr ''no-date'') = Some (''Invalid Date'', [])"
    by (simp add: newDate_def)
  have inv: "startsWith (toLowerCase ''Invalid Date'') ''invalid''"
    by code_simp
  have tg: "getType emptyHeap (VStr ''no-date'') = T_String"
    by (simp add: getType_def)
  have js: "sampleStringify h' (VStr ''no-date'') = Some ''\"no-date\"''"
    by (simp add: sampleStringify_def)
  have d: "describeType T_String True = ''a string''"
    by code_simp
  have pre: "startsWith (toLowerCase ''Invalid Date'') ''invalid''
      \<and> getType emptyHeap (VStr ''no-date'') \<noteq> T_null
      \<and> getType emptyHeap (VStr ''no-date'') \<noteq> T_undefined
      \<and> sampleStringify h' (VStr ''no-date'') = Some ''\"no-date\"''"
    using inv js by (simp add: tg)
  have hyp: "\<not> instanceOf emptyHeap (VStr ''no-date'') ''Date''
      \<and> newDate emptyHeap (VStr ''no-date'') = Some (''Invalid Date'', [])
      \<and> alloc emptyHeap (Obj (Inst (''Date'' # []) ''Invalid Date'') []) = (h', w)"
    using ni nw al by simp
  from checkType_constructor
         [where h = emptyHeap and v = "VStr ''no-date''" and cn = "''Date''"
            and js = sampleStringify and anc = "[]" and new = newDate and name = "''value''"
            and str = "''Invalid Date''" and ps = "[]" and h' = h' and w = w
            and j = "''\"no-date\"''"]
       hyp pre
  have "checkType sampleStringify emptyHeap (VStr ''no-date'') (Ctor ''Date'' [] newDate) ''value'' =
      (h', Failure (''The '' @ ''value'' @ '' must be a valid '' @ ''Date'' @ '', but it was ''
          @ describeType (getType emptyHeap (VStr ''no-date'')) True @ '': '' @ ''\"no-date\"''
          @ ''.''))"
    by blast
  then have r: "checkType sampleStringify emptyHeap (VStr ''no-date'') Date ''value'' =
      (h', Failure ''The value must be a valid Date, but it was a string: \"no-date\".'')"
    unfolding Date_def tg d by simp
  show ?thesis
    using ni nw inv tg r unfolding h'_def by blast
qed

text \<open>The test \<^verbatim>\<open>ensureType(null, Date)\<close>: the epoch, as a new instance.\<close>

lemma checkType_null_Date:
  "checkType sampleStringify emptyHeap VNull Date ''value'' =
     (fst (alloc emptyHeap
        (Obj (Inst [''Date''] ''Thu Jan 01 1970 00:00:00 GMT+0000 (Coordinated Universal Time)'') [])),
      Value (VRef 0))"
proof -
  have inv: "\<not> startsWith (toLowerCase
      ''Thu Jan 01 1970 00:00:00 GMT+0000 (Coordinated Universal Time)'') ''invalid''"
    by code_simp
  have ni: "\<not> instanceOf emptyHeap VNull ''Date''"
    by (simp add: instanceOf_def)
  have nw: "newDate emptyHeap VNull =
      Some (''Thu Jan 01 1970 00:00:00 GMT+0000 (Coordinated Universal Time)'', [])"
    by (simp add: newDate_def)
  have t: "top emptyHeap = 0"
    by (simp add: emptyHeap_def)
  show ?thesis
    unfolding Date_def using inv ni nw by (simp add: alloc_def t)
qed

text \<open>
  C4. A value from which no valid instance can be built is to fail the check with the
  message \<open>The {name} must be a valid {TypeName}, but it was {a/an tag}: {JSON of v}.\<close>
  For the object \<open>cyclic\<close> that refers to itself, \<^verbatim>\<open>ensureType(cyclic, Date)\<close> builds
  an invalid date and then calls \<open>JSON.stringify(cyclic)\<close> for the message (line 504),
  which throws a TypeError: that exception leaves \<open>ensureType\<close> in place of the
  validation error.
\<close>

theorem ensureType_cyclic_Date_throws:
  "ensureType sampleStringify cyclicHeap (VRef 0) Date None =
     (fst (alloc cyclicHeap (Obj (Inst [''Date''] ''Invalid Date'') [])), Inl TypeError)"
proof -
  define h' where "h' = fst (alloc cyclicHeap (Obj (Inst [''Date''] ''Invalid Date'') []))"
  have al: "alloc cyclicHeap (Obj (Inst [''Date''] ''Invalid Date'') []) = (h', VRef (Suc 0))"
    by (simp add: h'_def alloc_def cyclicHeap_def)
  have c0: "cells cyclicHeap 0 = Obj Plain [(''self'', VRef 0)]"
    by (simp add: cyclicHeap_def)
  have c1: "cells h' 0 = Obj Plain [(''self'', VRef 0)]"
    by (simp add: h'_def alloc_def cyclicHeap_def)
  have ni: "\<not> instanceOf cyclicHeap (VRef 0) ''Date''"
    by (simp add: instanceOf_def c0)
  have nw: "newDate cyclicHeap (VRef 0) = Some (''Invalid Date'', [])"
    by (simp add: newDate_def c0)
  have inv: "startsWith (toLowerCase ''Invalid Date'') ''invalid''"
    by code_simp
  have tg: "getType cyclicHeap (VRef 0) = T_Object"
    by (simp add: getType_def c0)
  have js: "sampleStringify h' (VRef 0) = None"
    by (simp add: sampleStringify_def c1)
  have "checkType sampleStringify cyclicHeap (VRef 0) (Ctor ''Date'' [] newDate) ''value'' =
      (h', Throws TypeError)"
    using ni nw inv js by (simp add: al tg)
  then show ?thesis
    unfolding h'_def [symmetric] by (simp add: ensureType_def Date_def nameOrDefault_def throwOrValue_def)
qed

section \<open>What a union returns\<close>

lemma checkType_Union_Value:
  "checkType js h v (Union ts) name = (h', Value w) \<Longrightarrow>
   w = v \<and> checkUnion js h v ts name = Inl (h', True)"
  by (auto simp: mismatch_def split: sum.splits bool.splits option.splits if_splits)

lemma checkUnion_append:
  "checkUnion js h v pre name = Inl (h0, False) \<Longrightarrow>
   checkUnion js h v (pre @ rest) name = checkUnion js h0 v rest name"
proof (induction pre arbitrary: h)
  case Nil
  then show ?case by simp
next
  case (Cons t pre)
  obtain h1 r where c: "checkType js h v t name = (h1, r)"
    by (cases "checkType js h v t name")
  show ?case
  proof (cases r)
    case (Value w)
    with Cons.prems c show ?thesis by simp
  next
    case (Failure msg)
    with Cons.prems c have "checkUnion js h1 v pre name = Inl (h0, False)" by simp
    from Cons.IH [OF this] Failure c show ?thesis by simp
  next
    case (Throws e)
    with Cons.prems c show ?thesis by simp
  qed
qed

lemma checkUnion_split:
  "checkUnion js h v ts name = Inl (h', True) \<Longrightarrow>
   \<exists>pre t post h0 w. ts = pre @ t # post \<and> checkUnion js h v pre name = Inl (h0, False)
      \<and> checkType js h0 v t name = (h', Value w)"
proof (induction ts arbitrary: h)
  case Nil
  then show ?case by simp
next
  case (Cons t ts)
  obtain h1 r where c: "checkType js h v t name = (h1, r)"
    by (cases "checkType js h v t name")
  show ?case
  proof (cases r)
    case (Value w)
    with Cons.prems c have "h1 = h'" by simp
    with Value c have "t # ts = [] @ t # ts \<and> checkUnion js h v [] name = Inl (h, False)
        \<and> checkType js h v t name = (h', Value w)"
      by simp
    then show ?thesis by blast
  next
    case (Failure msg)
    with Cons.prems c have "checkUnion js h1 v ts name = Inl (h', True)" by simp
    from Cons.IH [OF this] obtain pre u post h0 w where
      s: "ts = pre @ u # post" "checkUnion js h1 v pre name = Inl (h0, False)"
         "checkType js h0 v u name = (h', Value w)"
      by blast
    from s(2) Failure c have "checkUnion js h v (t # pre) name = Inl (h0, False)" by simp
    with s(1,3) have "t # ts = (t # pre) @ u # post
        \<and> checkUnion js h v (t # pre) name = Inl (h0, False)
        \<and> checkType js h0 v u name = (h', Value w)"
      by simp
    then show ?thesis by blast
  next
    case (Throws e)
    with Cons.prems c show ?thesis by simp
  qed
qed




section \<open>Struct types\<close>

lemma isObjCell_alloc:
  "isObjCell h a \<Longrightarrow> isObjCell (fst (alloc h (Obj kd ps))) a"
  by (simp add: isObjCell_def alloc_def)

lemma isObjCell_writeField:
  "isObjCell h a \<Longrightarrow> isObjCell (writeField h v key w) a"
  by (auto simp: isObjCell_def writeField_def split: val.splits obj.splits)

lemma isObjCell_checkType:
  "checkType js h v d name = (h', r) \<Longrightarrow> isObjCell h a \<Longrightarrow> isObjCell h' a"
  and isObjCell_checkUnion:
  "checkUnion js h v ts name = Inl (h', b) \<Longrightarrow> isObjCell h a \<Longrightarrow> isObjCell h' a"
  and isObjCell_checkFields:
  "checkFields js h v fs name = (h', r) \<Longrightarrow> isObjCell h a \<Longrightarrow> isObjCell h' a"
proof (induction js h v d name and js h v ts name and js h v fs name
    arbitrary: h' r and h' b and h' r rule: checkType_checkUnion_checkFields.induct)
  case (1 js h v t name)
  then show ?case by (auto split: if_splits)
next
  case (2 js h v en vs name)
  then show ?case by (auto split: option.splits)
next
  case (3 js h v cn anc new name)
  then show ?case
    by (auto simp: Let_def alloc_def isObjCell_def split: if_splits option.splits prod.splits)
next
  case (4 js h v ts name)
  then show ?case
    by (auto split: sum.splits bool.splits)
next
  case (5 js h v fs name)
  then show ?case by (auto split: if_splits)
next
  case (6 js h v name)
  then show ?case by simp
next
  case (7 js h v t ts name)
  obtain h1 r1 where c: "checkType js h v t name = (h1, r1)"
    by (cases "checkType js h v t name")
  show ?case
  proof (cases r1)
    case (Value w)
    with "7.prems" c "7.IH"(1) [OF c] show ?thesis by simp
  next
    case (Failure msg)
    with "7.prems" c have u: "checkUnion js h1 v ts name = Inl (h', b)" by simp
    have "isObjCell h1 a" using "7.IH"(1) [OF c] "7.prems" by simp
    with "7.IH"(2) c Failure u show ?thesis by simp
  next
    case (Throws e)
    with "7.prems" c show ?thesis by simp
  qed
next
  case (8 js h v name)
  then show ?case by simp
next
  case (9 js h v key t fs name)
  obtain h1 r1 where c: "checkType js h (readField h v key) t (name @ ''.'' @ key) = (h1, r1)"
    by (cases "checkType js h (readField h v key) t (name @ ''.'' @ key)")
  have o1: "isObjCell h1 a" using "9.IH"(1) [OF c] "9.prems" by simp
  show ?case
  proof (cases r1)
    case (Value w)
    with "9.prems" c have f: "checkFields js (writeField h1 v key w) v fs name = (h', r)" by simp
    from "9.IH"(2) c Value f isObjCell_writeField [OF o1] show ?thesis by simp
  next
    case (Failure msg)
    with "9.prems" c o1 show ?thesis by simp
  next
    case (Throws e)
    with "9.prems" c o1 show ?thesis by simp
  qed
qed

lemma getType_Object_iff:
  "(getType h v = T_Object) = (\<exists>a. v = VRef a \<and> isObjCell h a)"
  by (auto simp: getType_def isObjCell_def split: val.splits obj.splits)

lemma getProp_setProp:
  "getProp (setProp ps k w) k = w"
  by (induction ps) auto

lemma readField_writeField:
  "isObjCell h a \<Longrightarrow> readField (writeField h (VRef a) key w) (VRef a) key = w"
  by (auto simp: isObjCell_def readField_def writeField_def getProp_setProp split: obj.splits)

lemma checkFields_Value:
  "checkFields js h v fs name = (h', Value w) \<Longrightarrow> w = v"
proof (induction fs arbitrary: h)
  case Nil
  then show ?case by simp
next
  case (Cons f fs)
  obtain key t where f: "f = (key, t)" by (cases f)
  obtain h1 r1 where c: "checkType js h (readField h v key) t (name @ ''.'' @ key) = (h1, r1)"
    by (cases "checkType js h (readField h v key) t (name @ ''.'' @ key)")
  show ?case
  proof (cases r1)
    case (Value w1)
    with Cons.prems f c have "checkFields js (writeField h1 v key w1) v fs name = (h', Value w)"
      by simp
    then show ?thesis by (rule Cons.IH)
  next
    case (Failure msg)
    with Cons.prems f c show ?thesis by simp
  next
    case (Throws e)
    with Cons.prems f c show ?thesis by simp
  qed
qed



section \<open>Exceptions other than validation errors\<close>

lemma checkType_no_ValidationError:
  "checkType js h v d name = (h', r) \<Longrightarrow> r \<noteq> Throws (ValidationError msg)"
  and checkUnion_no_ValidationError:
  "checkUnion js h v ts name \<noteq> Inr (ValidationError msg)"
  and checkFields_no_ValidationError:
  "checkFields js h v fs name = (h', r) \<Longrightarrow> r \<noteq> Throws (ValidationError msg)"
proof (induction js h v d name and js h v ts name and js h v fs name
    arbitrary: h' r and h' and h' r rule: checkType_checkUnion_checkFields.induct)
  case (1 js h v t name)
  then show ?case by (auto simp: mismatch_def split: if_splits)
next
  case (2 js h v en vs name)
  then show ?case by (auto simp: mismatch_def split: option.splits if_splits)
next
  case (3 js h v cn anc new name)
  then show ?case
    by (auto simp: Let_def split: if_splits option.splits prod.splits)
next
  case (4 js h v ts name)
  then show ?case
    by (auto simp: mismatch_def split: sum.splits bool.splits option.splits)
next
  case (5 js h v fs name)
  then show ?case by (auto simp: mismatch_def split: if_splits)
next
  case (6 js h v name)
  then show ?case by auto
next
  case (7 js h v t ts name)
  obtain h1 r1 where c: "checkType js h v t name = (h1, r1)"
    by (cases "checkType js h v t name")
  show ?case
  proof (cases r1)
    case (Value w)
    with c show ?thesis by simp
  next
    case (Failure m)
    with c "7.IH"(2) show ?thesis by auto
  next
    case (Throws e)
    with c "7.IH"(1) [OF c] show ?thesis by auto
  qed
next
  case (8 js h v name)
  then show ?case by auto
next
  case (9 js h v key t fs name)
  obtain h1 r1 where c: "checkType js h (readField h v key) t (name @ ''.'' @ key) = (h1, r1)"
    by (cases "checkType js h (readField h v key) t (name @ ''.'' @ key)")
  show ?case
  proof (cases r1)
    case (Value w)
    with "9.prems" c have f: "checkFields js (writeField h1 v key w) v fs name = (h', r)" by simp
    from "9.IH"(2) c Value f show ?thesis by simp
  next
    case (Failure m)
    with "9.prems" c show ?thesis by auto
  next
    case (Throws e)
    with "9.prems" c "9.IH"(1) [OF c] show ?thesis by auto
  qed
qed

section \<open>\<open>ensureItemType\<close>\<close>

lemma getType_Array_iff:
  "(getType h v = T_Array) = (\<exists>a xs. v = VRef a \<and> cells h a = Arr xs)"
  by (auto simp: getType_def split: val.splits obj.splits)

lemma forEachItem_origin:
  "forEachItem js h a d name idxs = (h', Some (ValidationError msg)) \<Longrightarrow>
   \<exists>i\<in>set idxs. \<exists>h1 h2 xs1. cells h1 a = Arr xs1 \<and> i < length xs1
      \<and> checkType js h1 (xs1 ! i) d (name @ ''.'' @ showNat i) = (h2, Failure msg)"
proof (induction idxs arbitrary: h)
  case Nil
  then show ?case by simp
next
  case (Cons i idxs)
  show ?case
  proof (cases "\<exists>xs. cells h a = Arr xs \<and> i < length xs")
    case True
    then obtain xs where xs: "cells h a = Arr xs" "i < length xs" by blast
    obtain h1 r1 where c: "checkType js h (xs ! i) d (name @ ''.'' @ showNat i) = (h1, r1)"
      by (cases "checkType js h (xs ! i) d (name @ ''.'' @ showNat i)")
    show ?thesis
    proof (cases r1)
      case (Value w)
      with Cons.prems xs c
      have "forEachItem js (writeIndex h1 a i w) a d name idxs = (h', Some (ValidationError msg))"
        by simp
      from Cons.IH [OF this] show ?thesis by auto
    next
      case (Failure m)
      with Cons.prems xs c have "m = msg" by simp
      with Failure c have "checkType js h (xs ! i) d (name @ ''.'' @ showNat i) = (h1, Failure msg)"
        by simp
      with xs show ?thesis
        by (intro bexI [of _ i] exI [of _ h] exI [of _ h1] exI [of _ xs]) simp_all
    next
      case (Throws e)
      with Cons.prems xs c have "r1 = Throws (ValidationError msg)" by simp
      with checkType_no_ValidationError [OF c, of msg] show ?thesis by simp
    qed
  next
    case False
    have "forEachItem js h a d name (i # idxs) = forEachItem js h a d name idxs"
    proof (cases "cells h a")
      case (Arr xs)
      with False have "\<not> i < length xs" by simp
      with Arr show ?thesis by simp
    next
      case (Fn nm src)
      then show ?thesis by simp
    next
      case (Obj kd ps)
      then show ?thesis by simp
    qed
    with Cons.prems have "forEachItem js h a d name idxs = (h', Some (ValidationError msg))"
      by simp
    from Cons.IH [OF this] show ?thesis by auto
  qed
qed


section \<open>\<open>ensureArguments\<close>\<close>

lemma forEachExpected_origin:
  "forEachExpected js h args ts names k = (h', Some e) \<Longrightarrow>
   \<exists>i<length ts. \<exists>h1.
      ensureType js h1 (argumentAt args (k + i)) (ts ! i) (Some (argumentName names (k + i)))
        = (h', Inl e)"
proof (induction ts arbitrary: h k)
  case Nil
  then show ?case by simp
next
  case (Cons t ts)
  obtain h1 r1 where c:
    "ensureType js h (argumentAt args k) t (Some (argumentName names k)) = (h1, r1)"
    by (cases "ensureType js h (argumentAt args k) t (Some (argumentName names k))")
  show ?case
  proof (cases r1)
    case (Inl e1)
    with Cons.prems c have "h1 = h'" "e1 = e" by simp_all
    with Inl c have "ensureType js h (argumentAt args (k + 0)) ((t # ts) ! 0)
        (Some (argumentName names (k + 0))) = (h', Inl e)"
      by simp
    then show ?thesis
      by (intro exI [of _ 0] conjI exI [of _ h]) simp_all
  next
    case (Inr w)
    with Cons.prems c have "forEachExpected js h1 args ts names (k + 1) = (h', Some e)"
      by simp
    from Cons.IH [OF this] obtain i h2 where i: "i < length ts"
      "ensureType js h2 (argumentAt args (k + 1 + i)) (ts ! i)
         (Some (argumentName names (k + 1 + i))) = (h', Inl e)"
      by blast
    then have "ensureType js h2 (argumentAt args (k + Suc i)) ((t # ts) ! Suc i)
         (Some (argumentName names (k + Suc i))) = (h', Inl e)"
      by simp
    with i(1) show ?thesis
      by (intro exI [of _ "Suc i"] conjI exI [of _ h2]) simp_all
  qed
qed

lemma forEachExpected_None:
  "forEachExpected js h args ts names k = (h', None) \<Longrightarrow> i < length ts \<Longrightarrow>
   \<exists>h1 h2 w.
      ensureType js h1 (argumentAt args (k + i)) (ts ! i) (Some (argumentName names (k + i)))
        = (h2, Inr w)"
proof (induction ts arbitrary: h k i)
  case Nil
  then show ?case by simp
next
  case (Cons t ts)
  obtain h1 r1 where c:
    "ensureType js h (argumentAt args k) t (Some (argumentName names k)) = (h1, r1)"
    by (cases "ensureType js h (argumentAt args k) t (Some (argumentName names k))")
  show ?case
  proof (cases r1)
    case (Inl e1)
    with Cons.prems c show ?thesis by simp
  next
    case (Inr w)
    with Cons.prems c have rest: "forEachExpected js h1 args ts names (k + 1) = (h', None)"
      by simp
    show ?thesis
    proof (cases i)
      case 0
      with Inr c have "ensureType js h (argumentAt args (k + i)) ((t # ts) ! i)
          (Some (argumentName names (k + i))) = (h1, Inr w)"
        by simp
      then show ?thesis by blast
    next
      case (Suc j)
      with Cons.prems have "j < length ts" by simp
      from Cons.IH [OF rest this] obtain h2 h3 w2 where
        "ensureType js h2 (argumentAt args (k + 1 + j)) (ts ! j)
           (Some (argumentName names (k + 1 + j))) = (h3, Inr w2)"
        by blast
      with Suc have "ensureType js h2 (argumentAt args (k + i)) ((t # ts) ! i)
           (Some (argumentName names (k + i))) = (h3, Inr w2)"
        by simp
      then show ?thesis by blast
    qed
  qed
qed

text \<open>
  C8, as stated, fails on the code: the two \<open>ensureThat\<close> guards come before the
  count. \<^verbatim>\<open>ensureArguments(['John'], [], '')\<close> has more arguments than descriptors and
  fails with \<open>The names must be an array.\<close>
\<close>

theorem ensureArguments_names_guard_counterexample:
  "length ([] :: descr list) < length [VStr ''John'']
   \<and> ensureArguments sampleStringify emptyHeap [VStr ''John''] (ArrayOf []) NotAnArray =
       (emptyHeap, Some (ValidationError ''The names must be an array.''))"
  by (simp add: ensureArguments_def ensureThat_def orEmptyArray_def isArray_def)

text \<open>
  C8, amended. \<open>ensureArguments\<close> first fails with \<open>The expectedTypes must be an
  array.\<close> when \<open>expectedTypes\<close> is not an array and then with \<open>The names must be an
  array.\<close> when \<open>names\<close> is not one, a parameter that is left out standing for
  \<open>[]\<close>. With both of them arrays it fails at once with \<open>Too many arguments:
  expected {N}, but got {M}.\<close> when there are more arguments than descriptors, and
  otherwise runs the loop from the heap of the call: nothing is left to check after the
  last descriptor; each descriptor is checked against the argument at its index, or
  against \<open>undefined\<close> when there is none, under the name \<open>names[i]\<close> when that is
  given and not empty and \<open>argument #{i+1}\<close> otherwise; an exception of that
  \<open>ensureType\<close> ends the call, and a result passes the heap it left on to the next
  descriptor.
\<close>

theorem ensureArguments_guards_count_loop:
  "ensureArguments js h args NotAnArray names =
     (h, Some (ValidationError ''The expectedTypes must be an array.''))
   \<and> ensureArguments js h args (ArrayOf ts) NotAnArray =
       (h, Some (ValidationError ''The names must be an array.''))
   \<and> ensureArguments js h args Omitted names = ensureArguments js h args (ArrayOf []) names
   \<and> ensureArguments js h args expectedTypes Omitted =
       ensureArguments js h args expectedTypes (ArrayOf [])
   \<and> (length ts < length args \<longrightarrow>
        ensureArguments js h args (ArrayOf ts) (ArrayOf ns) =
          (h, Some (ValidationError (''Too many arguments: expected '' @ showNat (length ts)
                 @ '', but got '' @ showNat (length args) @ ''.''))))
   \<and> (length args \<le> length ts \<longrightarrow>
        ensureArguments js h args (ArrayOf ts) (ArrayOf ns) = forEachExpected js h args ts ns 0)
   \<and> forEachExpected js h args [] ns i = (h, None)
   \<and> (ensureType js h (if i < length args then args ! i else VUndefined) t
          (Some (if i < length ns \<and> ns ! i \<noteq> [] then ns ! i
                 else ''argument #'' @ showNat (i + 1))) = (h1, Inl e) \<longrightarrow>
        forEachExpected js h args (t # rest) ns i = (h1, Some e))
   \<and> (ensureType js h (if i < length args then args ! i else VUndefined) t
          (Some (if i < length ns \<and> ns ! i \<noteq> [] then ns ! i
                 else ''argument #'' @ showNat (i + 1))) = (h1, Inr w) \<longrightarrow>
        forEachExpected js h args (t # rest) ns i = forEachExpected js h1 args rest ns (i + 1))"
proof -
  have g1: "ensureArguments js h args NotAnArray names =
     (h, Some (ValidationError ''The expectedTypes must be an array.''))"
    by (simp add: ensureArguments_def ensureThat_def orEmptyArray_def isArray_def)
  have g2: "ensureArguments js h args (ArrayOf ts) NotAnArray =
       (h, Some (ValidationError ''The names must be an array.''))"
    by (simp add: ensureArguments_def ensureThat_def orEmptyArray_def isArray_def)
  have o1: "ensureArguments js h args Omitted names = ensureArguments js h args (ArrayOf []) names"
    by (simp add: ensureArguments_def orEmptyArray_def)
  have o2: "ensureArguments js h args expectedTypes Omitted =
       ensureArguments js h args expectedTypes (ArrayOf [])"
    by (simp add: ensureArguments_def orEmptyArray_def)
  have eq: "ensureArguments js h args (ArrayOf ts) (ArrayOf ns) =
      (if length args > length ts
       then (h, Some (ValidationError (''Too many arguments: expected '' @ showNat (length ts)
                 @ '', but got '' @ showNat (length args) @ ''.'')))
       else forEachExpected js h args ts ns 0)"
    by (simp add: ensureArguments_def ensureThat_def orEmptyArray_def isArray_def elements_def
        del: showNat.simps)
  have many: "length ts < length args \<longrightarrow>
        ensureArguments js h args (ArrayOf ts) (ArrayOf ns) =
          (h, Some (ValidationError (''Too many arguments: expected '' @ showNat (length ts)
                 @ '', but got '' @ showNat (length args) @ ''.'')))"
    unfolding eq by (simp del: showNat.simps)
  have loop: "length args \<le> length ts \<longrightarrow>
        ensureArguments js h args (ArrayOf ts) (ArrayOf ns) = forEachExpected js h args ts ns 0"
    unfolding eq by (cases "length ts < length args") (simp_all del: showNat.simps)
  have nil: "forEachExpected js h args [] ns i = (h, None)"
    by simp
  have err: "ensureType js h (if i < length args then args ! i else VUndefined) t
          (Some (if i < length ns \<and> ns ! i \<noteq> [] then ns ! i
                 else ''argument #'' @ showNat (i + 1))) = (h1, Inl e) \<longrightarrow>
        forEachExpected js h args (t # rest) ns i = (h1, Some e)"
    by (simp add: argumentAt_def argumentName_def del: showNat.simps)
  have ok: "ensureType js h (if i < length args then args ! i else VUndefined) t
          (Some (if i < length ns \<and> ns ! i \<noteq> [] then ns ! i
                 else ''argument #'' @ showNat (i + 1))) = (h1, Inr w) \<longrightarrow>
        forEachExpected js h args (t # rest) ns i = forEachExpected js h1 args rest ns (i + 1)"
    by (simp add: argumentAt_def argumentName_def del: showNat.simps)
  show ?thesis
    apply (intro conjI)
            apply (rule g1)
           apply (rule g2)
          apply (rule o1)
         apply (rule o2)
        apply (rule many)
       apply (rule loop)
      apply (rule nil)
     apply (rule err)
    apply (rule ok)
    done
qed

theorem ensureArguments_guards_count_loop_witness:
  "length ([] :: descr list) < length [VStr ''John'']
   \<and> ensureArguments sampleStringify emptyHeap [VStr ''John''] Omitted Omitted =
       (emptyHeap, Some (ValidationError ''Too many arguments: expected 0, but got 1.''))
   \<and> length [VNum 123, VNum 456] \<le> length [Builtin T_Number, Builtin T_String]
   \<and> ensureType sampleStringify emptyHeap (VNum 123) (Builtin T_Number) (Some ''argument #1'') =
       (emptyHeap, Inr (VNum 123))
   \<and> ensureType sampleStringify emptyHeap (VNum 456) (Builtin T_String) (Some ''argument #2'') =
       (emptyHeap, Inl (ValidationError ''The argument #2 must be a string, but it was a number.''))
   \<and> ensureArguments sampleStringify emptyHeap [VNum 123, VNum 456]
        (ArrayOf [Builtin T_Number, Builtin T_String]) Omitted =
       (emptyHeap, Some (ValidationError ''The argument #2 must be a string, but it was a number.''))"
proof -
  let ?args = "[VNum 123, VNum 456]"
  let ?msg = "''The argument #2 must be a string, but it was a number.''"
  have l: "length ([] :: descr list) < length [VStr ''John'']"
    by simp
  have s0: "showNat (length ([] :: descr list)) = ''0''"
    by code_simp
  have s1: "showNat (length [VStr ''John'']) = ''1''"
    by code_simp
  have ds: "describeType T_String True = ''a string''"
    by code_simp
  have dn: "describeType T_Number True = ''a number''"
    by code_simp
  \<comment> \<open>too many arguments\<close>
  note a = ensureArguments_guards_count_loop
    [where js = sampleStringify and h = emptyHeap and args = "[VStr ''John'']"
       and ts = "[]" and ns = "[]" and names = Omitted and expectedTypes = "ArrayOf []"]
  from a have "ensureArguments sampleStringify emptyHeap [VStr ''John''] Omitted Omitted =
      ensureArguments sampleStringify emptyHeap [VStr ''John''] (ArrayOf []) Omitted"
    by blast
  moreover from a have "ensureArguments sampleStringify emptyHeap [VStr ''John''] (ArrayOf []) Omitted =
      ensureArguments sampleStringify emptyHeap [VStr ''John''] (ArrayOf []) (ArrayOf [])"
    by blast
  moreover from a l have "ensureArguments sampleStringify emptyHeap [VStr ''John'']
      (ArrayOf []) (ArrayOf []) =
      (emptyHeap, Some (ValidationError (''Too many arguments: expected ''
         @ showNat (length ([] :: descr list)) @ '', but got ''
         @ showNat (length [VStr ''John'']) @ ''.'')))"
    by blast
  ultimately have r1: "ensureArguments sampleStringify emptyHeap [VStr ''John''] Omitted Omitted =
       (emptyHeap, Some (ValidationError ''Too many arguments: expected 0, but got 1.''))"
    unfolding s0 s1 by simp
  \<comment> \<open>the second argument does not match\<close>
  have l2: "length ?args \<le> length [Builtin T_Number, Builtin T_String]"
    by simp
  have n1: "(if 0 < length ([] :: string list) \<and> ([] :: string list) ! 0 \<noteq> [] then [] ! 0
             else ''argument #'' @ showNat (0 + 1)) = ''argument #1''"
    by code_simp
  have n2: "(if 0 + 1 < length ([] :: string list) \<and> ([] :: string list) ! (0 + 1) \<noteq> []
             then [] ! (0 + 1) else ''argument #'' @ showNat (0 + 1 + 1)) = ''argument #2''"
    by code_simp
  have v1: "(if 0 < length ?args then ?args ! 0 else VUndefined) = VNum 123"
    by simp
  have v2: "(if 0 + 1 < length ?args then ?args ! (0 + 1) else VUndefined) = VNum 456"
    by simp
  have e1: "ensureType sampleStringify emptyHeap (VNum 123) (Builtin T_Number) (Some ''argument #1'') =
       (emptyHeap, Inr (VNum 123))"
    by (simp add: ensureType_def throwOrValue_def getType_def)
  have e2: "ensureType sampleStringify emptyHeap (VNum 456) (Builtin T_String) (Some ''argument #2'') =
       (emptyHeap, Inl (ValidationError ?msg))"
    by (simp add: ensureType_def throwOrValue_def getType_def nameOrDefault_def mismatch_def
        mustBe_def ds dn)
  note b = ensureArguments_guards_count_loop
    [where js = sampleStringify and h = emptyHeap and args = ?args
       and ts = "[Builtin T_Number, Builtin T_String]" and ns = "[]"
       and expectedTypes = "ArrayOf [Builtin T_Number, Builtin T_String]"
       and i = 0 and t = "Builtin T_Number" and rest = "[Builtin T_String]"
       and ?h1.0 = emptyHeap and w = "VNum 123"]
  note c = ensureArguments_guards_count_loop
    [where js = sampleStringify and h = emptyHeap and args = ?args and ns = "[]"
       and i = "0 + 1" and t = "Builtin T_String" and rest = "[]"
       and ?h1.0 = emptyHeap and e = "ValidationError ?msg"]
  from b have q1: "ensureArguments sampleStringify emptyHeap ?args
      (ArrayOf [Builtin T_Number, Builtin T_String]) Omitted =
      ensureArguments sampleStringify emptyHeap ?args
      (ArrayOf [Builtin T_Number, Builtin T_String]) (ArrayOf [])"
    by blast
  from b l2 have q2: "ensureArguments sampleStringify emptyHeap ?args
      (ArrayOf [Builtin T_Number, Builtin T_String]) (ArrayOf []) =
      forEachExpected sampleStringify emptyHeap ?args [Builtin T_Number, Builtin T_String] [] 0"
    by blast
  from b e1 have q3: "forEachExpected sampleStringify emptyHeap ?args
      (Builtin T_Number # [Builtin T_String]) [] 0 =
      forEachExpected sampleStringify emptyHeap ?args [Builtin T_String] [] (0 + 1)"
    unfolding n1 v1 by blast
  from c e2 have q4: "forEachExpected sampleStringify emptyHeap ?args (Builtin T_String # []) []
      (0 + 1) = (emptyHeap, Some (ValidationError ?msg))"
    unfolding n2 v2 by blast
  from q1 q2 q3 q4 have r2: "ensureArguments sampleStringify emptyHeap ?args
        (ArrayOf [Builtin T_Number, Builtin T_String]) Omitted =
       (emptyHeap, Some (ValidationError ?msg))"
    by simp
  from l r1 l2 e1 e2 r2 show ?thesis by blast
qed

section \<open>\<open>ensureNonEmpty\<close>\<close>

lemma ensureNonEmpty_condition:
  "((getType h v = T_String \<and> isEmpty h v) \<or> (getType h v = T_Array \<and> isEmpty h v)
      \<or> (getType h v = T_Object \<and> isEmpty h v)) =
   (v = VStr [] \<or> (\<exists>a. v = VRef a \<and> (cells h a = Arr [] \<or> (\<exists>kd. cells h a = Obj kd []))))"
  by (cases v) (auto simp: getType_def isEmpty_def split: obj.splits)

text \<open>
  C9. \<open>ensureNonEmpty\<close> throws exactly for the empty string, an array without
  elements and an object (tag \<open>object\<close>) without own keys; the message carries what
  \<open>JSON.stringify\<close> gives for the value. Every other value is returned as it is.
\<close>

theorem ensureNonEmpty_iff_empty:
  "((\<exists>e. ensureNonEmpty js h v name = Inl e) =
      (v = VStr [] \<or> (\<exists>a. v = VRef a \<and> (cells h a = Arr [] \<or> (\<exists>kd. cells h a = Obj kd [])))))
   \<and> (\<not> (v = VStr [] \<or> (\<exists>a. v = VRef a \<and> (cells h a = Arr [] \<or> (\<exists>kd. cells h a = Obj kd []))))
        \<longrightarrow> ensureNonEmpty js h v name = Inr v)
   \<and> ((v = VStr [] \<or> (\<exists>a. v = VRef a \<and> (cells h a = Arr [] \<or> (\<exists>kd. cells h a = Obj kd []))))
        \<and> js h v = Some j \<longrightarrow>
        ensureNonEmpty js h v name =
          Inl (ValidationError (''The '' @ (case name of None \<Rightarrow> ''value'' | Some n \<Rightarrow> n)
                 @ '' must not be empty, but it was '' @ j @ ''.'')))"
proof -
  let ?empty = "v = VStr [] \<or> (\<exists>a. v = VRef a \<and> (cells h a = Arr [] \<or> (\<exists>kd. cells h a = Obj kd [])))"
  have eq: "ensureNonEmpty js h v name =
      (if ?empty
       then (case js h v of
               None \<Rightarrow> Inl TypeError
             | Some j \<Rightarrow> Inl (ValidationError
                 (''The '' @ nameOrDefault name @ '' must not be empty, but it was '' @ j @ ''.'')))
       else Inr v)"
    unfolding ensureNonEmpty_def Let_def ensureNonEmpty_condition ..
  have one: "(\<exists>e. ensureNonEmpty js h v name = Inl e) = ?empty"
    unfolding eq by (auto split: option.splits)
  have two: "\<not> ?empty \<longrightarrow> ensureNonEmpty js h v name = Inr v"
    unfolding eq by (rule impI) (simp only: if_False)
  have three: "?empty \<and> js h v = Some j \<longrightarrow>
        ensureNonEmpty js h v name =
          Inl (ValidationError (''The '' @ (case name of None \<Rightarrow> ''value'' | Some n \<Rightarrow> n)
                 @ '' must not be empty, but it was '' @ j @ ''.''))"
    unfolding eq by (simp add: nameOrDefault_def)
  show ?thesis
    apply (intro conjI)
      apply (rule one)
     apply (rule two)
    apply (rule three)
    done
qed
theorem ensureNonEmpty_iff_empty_witness:
  "sampleStringify emptyHeap (VStr []) = Some ''\"\"''
   \<and> ensureNonEmpty sampleStringify emptyHeap (VStr []) None =
       Inl (ValidationError ''The value must not be empty, but it was \"\".'')
   \<and> cells emptiesHeap 0 = Arr []
   \<and> ensureNonEmpty sampleStringify emptiesHeap (VRef 0) None =
       Inl (ValidationError ''The value must not be empty, but it was [].'')
   \<and> cells emptiesHeap (Suc 0) = Obj Plain []
   \<and> ensureNonEmpty sampleStringify emptiesHeap (VRef (Suc 0)) None =
       Inl (ValidationError ''The value must not be empty, but it was {}.'')
   \<and> ensureNonEmpty sampleStringify emptyHeap (VStr ''John'') None = Inr (VStr ''John'')"
proof -
  have j1: "sampleStringify emptyHeap (VStr []) = Some ''\"\"''"
    by (simp add: sampleStringify_def)
  from ensureNonEmpty_iff_empty
         [where v = "VStr []" and js = sampleStringify and h = emptyHeap and name = None
            and j = "''\"\"''"] j1
  have r1: "ensureNonEmpty sampleStringify emptyHeap (VStr []) None =
       Inl (ValidationError ''The value must not be empty, but it was \"\".'')"
    by simp
  have c2: "cells emptiesHeap 0 = Arr []"
    by (simp add: emptiesHeap_def)
  have j2: "sampleStringify emptiesHeap (VRef 0) = Some ''[]''"
    by (simp add: sampleStringify_def c2)
  have p2: "VRef 0 = VStr [] \<or> (\<exists>a. VRef 0 = VRef a
      \<and> (cells emptiesHeap a = Arr [] \<or> (\<exists>kd. cells emptiesHeap a = Obj kd [])))"
    using c2 by simp
  from ensureNonEmpty_iff_empty
         [where v = "VRef 0" and js = sampleStringify and h = emptiesHeap and name = None
            and j = "''[]''"] p2 j2
  have "ensureNonEmpty sampleStringify emptiesHeap (VRef 0) None =
      Inl (ValidationError (''The '' @ (case None of None \<Rightarrow> ''value'' | Some n \<Rightarrow> n)
                 @ '' must not be empty, but it was '' @ ''[]'' @ ''.''))"
    by blast
  then have r2: "ensureNonEmpty sampleStringify emptiesHeap (VRef 0) None =
       Inl (ValidationError ''The value must not be empty, but it was [].'')"
    by simp
  have c3: "cells emptiesHeap (Suc 0) = Obj Plain []"
    by (simp add: emptiesHeap_def)
  have j3: "sampleStringify emptiesHeap (VRef (Suc 0)) = Some ''{}''"
    by (simp add: sampleStringify_def c3)
  have p3: "VRef (Suc 0) = VStr [] \<or> (\<exists>a. VRef (Suc 0) = VRef a
      \<and> (cells emptiesHeap a = Arr [] \<or> (\<exists>kd. cells emptiesHeap a = Obj kd [])))"
    using c3 by simp
  from ensureNonEmpty_iff_empty
         [where v = "VRef (Suc 0)" and js = sampleStringify and h = emptiesHeap and name = None
            and j = "''{}''"] p3 j3
  have "ensureNonEmpty sampleStringify emptiesHeap (VRef (Suc 0)) None =
      Inl (ValidationError (''The '' @ (case None of None \<Rightarrow> ''value'' | Some n \<Rightarrow> n)
                 @ '' must not be empty, but it was '' @ ''{}'' @ ''.''))"
    by blast
  then have r3: "ensureNonEmpty sampleStringify emptiesHeap (VRef (Suc 0)) None =
       Inl (ValidationError ''The value must not be empty, but it was {}.'')"
    by simp
  have p4: "\<not> (VStr ''John'' = VStr [] \<or> (\<exists>a. VStr ''John'' = VRef a
      \<and> (cells emptyHeap a = Arr [] \<or> (\<exists>kd. cells emptyHeap a = Obj kd []))))"
    by simp
  from ensureNonEmpty_iff_empty
         [where v = "VStr ''John''" and js = sampleStringify and h = emptyHeap and name = None] p4
  have r4: "ensureNonEmpty sampleStringify emptyHeap (VStr ''John'') None = Inr (VStr ''John'')"
    by blast
  from j1 r1 c2 r2 c3 r3 r4 show ?thesis by blast
qed

section \<open>Checking a struct twice\<close>

lemma extends_refl: "extends h h"
  by (simp add: extends_def)

lemma extends_trans: "extends h h' \<Longrightarrow> extends h' h'' \<Longrightarrow> extends h h''"
  by (auto simp: extends_def)

lemma extends_alloc: "extends h (fst (alloc h ob))"
  by (simp add: extends_def alloc_def)

lemma upperChar_idem: "upperChar (upperChar c) = upperChar c"
proof (cases "map_of (zip lowerLetters upperLetters) c")
  case None
  then show ?thesis by (simp add: upperChar_def)
next
  case (Some u)
  then have "u \<in> set upperLetters"
    by (auto dest!: map_of_SomeD set_zip_rightD)
  moreover have "list_all (\<lambda>u. map_of (zip lowerLetters upperLetters) u = None) upperLetters"
    by code_simp
  ultimately have "map_of (zip lowerLetters upperLetters) u = None"
    by (simp add: list_all_iff)
  with Some show ?thesis by (simp add: upperChar_def)
qed

lemma toUpperCase_idem: "toUpperCase (toUpperCase s) = toUpperCase s"
  by (simp add: toUpperCase_def upperChar_idem)

lemma getType_primitive: "isPrimitive v \<Longrightarrow> getType h v = getType g v"
  by (cases v) (simp_all add: getType_def isPrimitive_def)

lemma String_js_primitive: "isPrimitive v \<Longrightarrow> String_js h v = String_js g v"
  by (cases v) (simp_all add: String_js_def isPrimitive_def)

lemma instanceOf_primitive: "isPrimitive v \<Longrightarrow> \<not> instanceOf h v cn"
  by (cases v) (simp_all add: instanceOf_def isPrimitive_def)

lemma leaf_extends:
  "checkType js h v d name = (h', r) \<Longrightarrow> leafReady t h0 d \<Longrightarrow> extends h h'"
  and leaf_extends_union:
  "checkUnion js h v ts name = Inl (h', b) \<Longrightarrow> leafReadys t h0 ts \<Longrightarrow> extends h h'"
  and leaf_extends_fields:
  "checkFields js h v fs name = (h', r) \<Longrightarrow> True"
proof (induction js h v d name and js h v ts name and js h v fs name
    arbitrary: h' r and h' b and h' r rule: checkType_checkUnion_checkFields.induct)
  case (1 js h v ty name)
  then show ?case by (auto simp: extends_def split: if_splits)
next
  case (2 js h v en vs name)
  then show ?case by (auto simp: extends_def split: option.splits)
next
  case (3 js h v cn anc new name)
  then show ?case
    by (auto simp: Let_def alloc_def extends_def split: if_splits option.splits prod.splits)
next
  case (4 js h v ts name)
  then show ?case
    by (auto simp: extends_refl split: sum.splits bool.splits)
next
  case (5 js h v fs name)
  then show ?case by simp
next
  case (6 js h v name)
  then show ?case by (simp add: extends_def)
next
  case (7 js h v d ts name)
  obtain h1 r1 where c: "checkType js h v d name = (h1, r1)"
    by (cases "checkType js h v d name")
  from "7.prems" have l: "leafReady t h0 d" "leafReadys t h0 ts" by simp_all
  have e1: "extends h h1" using "7.IH"(1) [OF c l(1)] .
  show ?case
  proof (cases r1)
    case (Value w)
    with "7.prems" c e1 show ?thesis by simp
  next
    case (Failure msg)
    with "7.prems" c have u: "checkUnion js h1 v ts name = Inl (h', b)" by simp
    have "extends h1 h'" using "7.IH"(2) c Failure u l(2) by simp
    with e1 show ?thesis by (rule extends_trans)
  next
    case (Throws e)
    with "7.prems" c show ?thesis by simp
  qed
next
  case (8 js h v name)
  then show ?case by simp
next
  case (9 js h v key d fs name)
  then show ?case by simp
qed

lemma agreeBelow_extends:
  "extends h h' \<Longrightarrow> t \<le> top h \<Longrightarrow> agreeBelow t a h h'"
  by (auto simp: extends_def agreeBelow_def)

lemma agreeBelow_step:
  "agreeBelow t a h g \<Longrightarrow> extends h h' \<Longrightarrow> extends g g' \<Longrightarrow> agreeBelow t a h' g'"
  by (auto simp: extends_def agreeBelow_def)

lemma isPlainCell_extends:
  "isPlainCell h a \<Longrightarrow> extends h h' \<Longrightarrow> a < top h \<Longrightarrow> isPlainCell h' a"
  by (auto simp: extends_def isPlainCell_def)

lemma isEnumConstant_cases:
  assumes e: "isEnumConstant t h en c"
  shows "\<exists>b ps nm. c = VRef b \<and> b < t \<and> cells h b = Obj (EnumInst en) ps
      \<and> getProp ps ''name'' = VStr nm"
proof -
  from e obtain b where b: "c = VRef b"
    by (cases c) (simp_all add: isEnumConstant_def)
  with e have bt: "b < t"
    and r: "(case cells h b of
               Obj (EnumInst en') ps \<Rightarrow>
                 en' = en \<and> (case getProp ps ''name'' of VStr nm \<Rightarrow> True | _ \<Rightarrow> False)
             | _ \<Rightarrow> False)"
    by (simp_all add: isEnumConstant_def)
  from r obtain kd ps where o: "cells h b = Obj kd ps"
    by (cases "cells h b") simp_all
  with r obtain en' where k: "kd = EnumInst en'"
    by (cases kd) simp_all
  with r o have en: "en' = en"
    and n: "(case getProp ps ''name'' of VStr nm \<Rightarrow> True | _ \<Rightarrow> False)"
    by simp_all
  from n obtain nm where "getProp ps ''name'' = VStr nm"
    by (cases "getProp ps ''name''") simp_all
  with b bt o k en show ?thesis by simp
qed

lemma isEnumConstant_agree:
  assumes "isEnumConstant t h en c" "agreeBelow t a h g" "isPlainCell h a"
  shows "nameOf g c = nameOf h c \<and> isEnumConstant t g en c"
proof -
  from isEnumConstant_cases [OF assms(1)] obtain b ps nm where
    b: "c = VRef b" "b < t" "cells h b = Obj (EnumInst en) ps" "getProp ps ''name'' = VStr nm"
    by blast
  with assms(3) have "b \<noteq> a"
    by (auto simp: isPlainCell_def)
  with b assms(2) have "cells g b = cells h b"
    by (simp add: agreeBelow_def)
  with b show ?thesis
    by (simp add: nameOf_def isEnumConstant_def)
qed

lemma leafReady_agree:
  "leafReady t h d \<Longrightarrow> agreeBelow t a h g \<Longrightarrow> isPlainCell h a \<Longrightarrow> leafReady t g d"
  and leafReadys_agree:
  "leafReadys t h ds \<Longrightarrow> agreeBelow t a h g \<Longrightarrow> isPlainCell h a \<Longrightarrow> leafReadys t g ds"
proof (induction t h d and t h ds rule: leafReady_leafReadys.induct)
  case (2 t h en vs)
  then show ?case
    by (auto simp: list_all_iff dest: isEnumConstant_agree)
qed simp_all

lemma Enum_valueOf_agree:
  "\<forall>c\<in>set vs. nameOf g c = nameOf h c \<Longrightarrow> Enum_valueOf g vs n = Enum_valueOf h vs n"
  by (induction vs) (simp_all split: option.splits)

lemma Enum_valueOf_leaf:
  "leafReady t h (EnumType en vs) \<Longrightarrow> agreeBelow t a h g \<Longrightarrow> isPlainCell h a \<Longrightarrow>
   Enum_valueOf g vs n = Enum_valueOf h vs n"
  by (rule Enum_valueOf_agree) (auto simp: list_all_iff dest: isEnumConstant_agree)

lemma sameKind_refl: "sameKind r r"
  by (cases r) (simp_all add: sameKind_def)

lemma mismatch_sameKind: "sameKind (mismatch name d ty) (mismatch name' d ty')"
  by (simp add: mismatch_def sameKind_def split: option.splits)

lemma leaf_same_kind:
  "checkType js h v d name = (h', r) \<Longrightarrow> leafReady t h d \<Longrightarrow> agreeBelow t a h g \<Longrightarrow>
   isPlainCell h a \<Longrightarrow> a < t \<Longrightarrow> isPrimitive v \<Longrightarrow> pureOnPrimitives js \<Longrightarrow>
   \<exists>g' r'. checkType js g v d name = (g', r') \<and> sameKind r r' \<and> extends g g'"
  and leaf_same_kind_union:
  "checkUnion js h v ts name = res \<Longrightarrow> leafReadys t h ts \<Longrightarrow> agreeBelow t a h g \<Longrightarrow>
   isPlainCell h a \<Longrightarrow> a < t \<Longrightarrow> isPrimitive v \<Longrightarrow> pureOnPrimitives js \<Longrightarrow>
   (case res of
      Inl (h', b) \<Rightarrow> (\<exists>g'. checkUnion js g v ts name = Inl (g', b) \<and> extends g g')
    | Inr e \<Rightarrow> (\<exists>e'. checkUnion js g v ts name = Inr e'))"
  and leaf_same_kind_fields:
  "checkFields js h v fs name = (h', r) \<Longrightarrow> True"
proof (induction js h v d name and js h v ts name and js h v fs name
    arbitrary: h' r g and res g and h' r rule: checkType_checkUnion_checkFields.induct)
  case (1 js h v ty name)
  have gt: "getType g v = getType h v"
    using "1.prems"(6) by (rule getType_primitive)
  show ?case
  proof (cases "ty = T_NaN")
    case True
    with "1.prems"(1) show ?thesis by (auto simp: sameKind_def extends_refl)
  next
    case False
    show ?thesis
    proof (cases "getType h v = ty")
      case True
      with False "1.prems"(1) gt show ?thesis by (auto simp: sameKind_def extends_refl)
    next
      case f: False
      with False "1.prems"(1) gt have "r = mismatch name (Builtin ty) (getType h v)"
        "checkType js g v (Builtin ty) name = (g, mismatch name (Builtin ty) (getType h v))"
        by auto
      then show ?thesis
        using sameKind_refl extends_refl by blast
    qed
  qed
next
  case (2 js h v en vs name)
  have gt: "getType g v = getType h v"
    using "2.prems"(6) by (rule getType_primitive)
  have st: "String_js g v = String_js h v"
    using "2.prems"(6) by (rule String_js_primitive)
  have ev: "\<And>n. Enum_valueOf g vs n = Enum_valueOf h vs n"
    using "2.prems"(2,3,4) by (rule Enum_valueOf_leaf)
  have "checkType js g v (EnumType en vs) name = (g, r)"
    using "2.prems"(1) by (auto simp: gt st ev split: option.splits)
  then show ?case
    using sameKind_refl extends_refl by blast
next
  case (3 js h v cn anc new name)
  have gt: "getType g v = getType h v"
    using "3.prems"(6) by (rule getType_primitive)
  have ni: "\<not> instanceOf h v cn" "\<not> instanceOf g v cn"
    using "3.prems"(6) by (simp_all add: instanceOf_primitive)
  have nw: "new g v = new h v"
    using "3.prems"(2,6) by simp
  show ?case
  proof (cases "new h v")
    case None
    with ni nw "3.prems"(1) show ?thesis
      by (auto simp: sameKind_def extends_refl)
  next
    case (Some sp)
    obtain str ps where sp: "sp = (str, ps)" by (cases sp)
    let ?ob = "Obj (Inst (cn # anc) str) ps"
    obtain h1 w1 where ah: "alloc h ?ob = (h1, w1)" by (cases "alloc h ?ob")
    obtain g1 w2 where ag: "alloc g ?ob = (g1, w2)" by (cases "alloc g ?ob")
    have eg: "extends g g1"
      using extends_alloc [of g ?ob] ag by simp
    have jj: "js g1 v = js h1 v"
      using "3.prems"(6,7) by (simp add: pureOnPrimitives_def)
    show ?thesis
    proof (cases "startsWith (toLowerCase str) ''invalid''")
      case False
      with ni nw Some sp ah ag "3.prems"(1)
      have "r = Value w1" "checkType js g v (Ctor cn anc new) name = (g1, Value w2)"
        by auto
      with eg show ?thesis by (auto simp: sameKind_def)
    next
      case True
      show ?thesis
      proof (cases "getType h v \<noteq> T_null \<and> getType h v \<noteq> T_undefined")
        case False
        with True ni nw Some sp ah ag gt "3.prems"(1)
        have "\<exists>m. r = Failure m" "\<exists>m. checkType js g v (Ctor cn anc new) name = (g1, Failure m)"
          by auto
        with eg show ?thesis by (auto simp: sameKind_def)
      next
        case t: True
        show ?thesis
        proof (cases "js h1 v")
          case None
          with t True ni nw Some sp ah ag gt jj "3.prems"(1)
          have "r = Throws TypeError"
            "checkType js g v (Ctor cn anc new) name = (g1, Throws TypeError)"
            by auto
          with eg show ?thesis by (auto simp: sameKind_def)
        next
          case (Some j)
          with t True ni nw \<open>new h v = Some sp\<close> sp ah ag gt jj "3.prems"(1)
          have "\<exists>m. r = Failure m"
            "\<exists>m. checkType js g v (Ctor cn anc new) name = (g1, Failure m)"
            by auto
          with eg show ?thesis by (auto simp: sameKind_def)
        qed
      qed
    qed
  qed
next
  case (4 js h v ts name)
  have gt: "getType g v = getType h v"
    using "4.prems"(6) by (rule getType_primitive)
  obtain res where res: "checkUnion js h v ts name = res" by simp
  from "4.prems"(2) have l: "leafReadys t h ts" by simp
  note ih = "4.IH" [OF res l "4.prems"(3,4,5,6,7)]
  show ?case
  proof (cases res)
    case (Inr e)
    with ih obtain e' where "checkUnion js g v ts name = Inr e'" by auto
    with Inr res "4.prems"(1) show ?thesis
      by (auto simp: sameKind_def extends_refl)
  next
    case (Inl p)
    obtain h1 b where p: "p = (h1, b)" by (cases p)
    with Inl ih obtain g1 where g1: "checkUnion js g v ts name = Inl (g1, b)" "extends g g1"
      by auto
    show ?thesis
    proof (cases b)
      case True
      with Inl p res g1 "4.prems"(1) show ?thesis
        by (auto simp: sameKind_def)
    next
      case False
      with Inl p res "4.prems"(1) have r: "r = mismatch name (Union ts) (getType h v)" by auto
      from False g1 have "checkType js g v (Union ts) name =
          (g1, mismatch name (Union ts) (getType g v))"
        by simp
      with r g1(2) mismatch_sameKind show ?thesis by blast
    qed
  qed
next
  case (5 js h v fs name)
  then show ?case by simp
next
  case (6 js h v name)
  then show ?case by (auto simp: extends_refl)
next
  case (7 js h v d ts name)
  obtain h1 r1 where c: "checkType js h v d name = (h1, r1)"
    by (cases "checkType js h v d name")
  from "7.prems"(2) have l: "leafReady t h d" "leafReadys t h ts" by simp_all
  from "7.IH"(1) [OF c l(1) "7.prems"(3,4,5,6,7)]
  obtain g1 r1' where g1: "checkType js g v d name = (g1, r1')" "sameKind r1 r1'" "extends g g1"
    by blast
  have e1: "extends h h1"
    using leaf_extends [OF c l(1)] .
  from "7.prems"(3) have tt: "t \<le> top h" by (simp add: agreeBelow_def)
  have ab: "agreeBelow t a h1 g1"
    using "7.prems"(3) e1 g1(3) by (rule agreeBelow_step)
  have pc: "isPlainCell h1 a"
    using "7.prems"(4) e1 "7.prems"(5) tt by (auto intro: isPlainCell_extends)
  have l1: "leafReadys t h1 ts"
    using l(2) agreeBelow_extends [OF e1 tt] "7.prems"(4) by (rule leafReadys_agree)
  show ?case
  proof (cases r1)
    case (Value w)
    with g1(2) obtain w' where "r1' = Value w'"
      by (cases r1') (simp_all add: sameKind_def)
    with Value c g1 "7.prems"(1) show ?thesis by auto
  next
    case (Failure m)
    with g1(2) obtain m' where f': "r1' = Failure m'"
      by (cases r1') (simp_all add: sameKind_def)
    from Failure c "7.prems"(1) have u: "checkUnion js h1 v ts name = res" by simp
    from "7.IH"(2) [OF c [symmetric] Failure u l1 ab pc "7.prems"(5,6,7)]
    have tail: "case res of
        Inl (h', b) \<Rightarrow> (\<exists>g'. checkUnion js g1 v ts name = Inl (g', b) \<and> extends g1 g')
      | Inr e \<Rightarrow> (\<exists>e'. checkUnion js g1 v ts name = Inr e')" .
    have step: "checkUnion js g v (d # ts) name = checkUnion js g1 v ts name"
      using g1(1) f' by simp
    show ?thesis
    proof (cases res)
      case (Inl p)
      obtain h2 b where "p = (h2, b)" by (cases p)
      with Inl tail obtain g2 where "checkUnion js g1 v ts name = Inl (g2, b)" "extends g1 g2"
        by auto
      with Inl \<open>p = (h2, b)\<close> step g1(3) show ?thesis
        by (auto intro: extends_trans)
    next
      case (Inr e)
      with tail step show ?thesis by auto
    qed
  next
    case (Throws e)
    with g1(2) obtain e' where "r1' = Throws e'"
      by (cases r1') (simp_all add: sameKind_def)
    with Throws c g1 "7.prems"(1) show ?thesis by auto
  qed
next
  case (8 js h v name)
  then show ?case by simp
next
  case (9 js h v key d fs name)
  then show ?case by simp
qed

lemma extendsBut_agreeBelow:
  "extendsBut a h g \<Longrightarrow> t \<le> top h \<Longrightarrow> agreeBelow t a h g"
  by (auto simp: extendsBut_def agreeBelow_def)

lemma extends_extendsBut:
  "extends h h' \<Longrightarrow> extendsBut a h' g \<Longrightarrow> isPlainCell h a \<Longrightarrow> extendsBut a h g"
  by (auto simp: extends_def extendsBut_def)

lemma getType_extendsBut:
  assumes "extendsBut a h g" "case v of VRef b \<Rightarrow> b < top h | _ \<Rightarrow> True"
  shows "getType g v = getType h v"
proof (cases v)
  case (VRef b)
  show ?thesis
  proof (cases "b = a")
    case True
    with assms(1) VRef show ?thesis
      by (auto simp: extendsBut_def isPlainCell_def getType_def split: obj.splits kind.splits)
  next
    case False
    with assms VRef have "cells g b = cells h b"
      by (simp add: extendsBut_def)
    with VRef show ?thesis by (simp add: getType_def)
  qed
qed (simp_all add: getType_def)

lemma String_js_EnumInst:
  "cells g b = Obj (EnumInst en) ps \<Longrightarrow> getProp ps ''name'' = VStr nm \<Longrightarrow>
   String_js g (VRef b) = Some nm"
proof -
  assume a: "cells g b = Obj (EnumInst en) ps" "getProp ps ''name'' = VStr nm"
  have f: "top g + 2 = Suc (Suc (top g))" by simp
  show ?thesis
    unfolding String_js_def f using a by simp
qed

lemma leaf_accepted:
  assumes c: "checkType js h v d name = (h', Value w)"
    and l: "leafReady t h d"
    and vr: "case d of Builtin ty \<Rightarrow> (case v of VRef b \<Rightarrow> b < t | _ \<Rightarrow> True) | _ \<Rightarrow> isPrimitive v"
    and at: "a < t" "t \<le> top h"
    and pl: "isPlainCell h a"
    and pj: "pureOnPrimitives js"
    and ex: "extendsBut a h' g"
  shows "\<exists>g'. checkType js g w d name = (g', Value w) \<and> extends g g'"
proof (cases d)
  case (Builtin ty)
  with c have r: "h' = h" "w = v" "ty \<noteq> T_NaN" "getType h v = ty"
    by (auto simp: mismatch_def split: if_splits option.splits)
  from vr Builtin at(2) have "case v of VRef b \<Rightarrow> b < top h | _ \<Rightarrow> True"
    by (cases v) simp_all
  with ex r(1) have "getType g v = getType h v"
    by (simp add: getType_extendsBut)
  with r Builtin have "checkType js g w d name = (g, Value w)"
    by simp
  then show ?thesis using extends_refl by blast
next
  case (EnumType en vs)
  from c EnumType obtain s where s: "String_js h v = Some s"
    "Enum_valueOf h vs (toUpperCase s) = Some w" "h' = h"
    by (auto simp: mismatch_def split: option.splits)
  from Enum_valueOf_member [OF s(2)]
  have m: "w \<in> set vs" "nameOf h w = Some (VStr (toUpperCase s))"
    by simp_all
  from l EnumType m(1) have "isEnumConstant t h en w"
    by (simp add: list_all_iff)
  from isEnumConstant_cases [OF this] obtain b ps nm where
    b: "w = VRef b" "b < t" "cells h b = Obj (EnumInst en) ps" "getProp ps ''name'' = VStr nm"
    by blast
  with m(2) have nm: "nm = toUpperCase s"
    by (simp add: nameOf_def)
  from ex s(3) at(2) have ab: "agreeBelow t a h g"
    by (simp add: extendsBut_agreeBelow)
  from b(3) pl have "b \<noteq> a"
    by (auto simp: isPlainCell_def)
  with ab b(2) have "cells g b = cells h b"
    by (simp add: agreeBelow_def)
  with b have st: "String_js g w = Some nm"
    by (simp add: String_js_EnumInst)
  have "Enum_valueOf g vs (toUpperCase nm) = Enum_valueOf h vs (toUpperCase nm)"
    using l [unfolded EnumType] ab pl by (rule Enum_valueOf_leaf)
  with s(2) nm have "Enum_valueOf g vs (toUpperCase nm) = Some w"
    by (simp add: toUpperCase_idem)
  with st EnumType have "checkType js g w d name = (g, Value w)"
    by simp
  then show ?thesis using extends_refl by blast
next
  case (Ctor cn anc new)
  with vr have pv: "isPrimitive v" by simp
  then have ni: "\<not> instanceOf h v cn" by (rule instanceOf_primitive)
  with c Ctor obtain str ps where n: "new h v = Some (str, ps)"
    "alloc h (Obj (Inst (cn # anc) str) ps) = (h', w)"
    by (auto simp: Let_def split: option.splits prod.splits if_splits)
  from alloc_fresh [OF n(2)]
  have f: "w = VRef (top h)" "cells h' (top h) = Obj (Inst (cn # anc) str) ps"
    "top h' = Suc (top h)"
    by simp_all
  from at have "top h \<noteq> a" by simp
  with ex f(3) have "cells g (top h) = cells h' (top h)"
    by (simp add: extendsBut_def)
  with f have "instanceOf g w cn"
    by (simp add: instanceOf_def)
  with Ctor have "checkType js g w d name = (g, Value w)"
    by simp
  then show ?thesis using extends_refl by blast
next
  case (Union ts)
  with vr have pv: "isPrimitive v" by simp
  from c Union have u: "w = v \<and> checkUnion js h v ts name = Inl (h', True)"
    using checkType_Union_Value [of js h v ts name h' w] by simp
  have e: "extends h h'"
    using leaf_extends [OF c l] .
  have "extendsBut a h g"
    using e ex pl by (rule extends_extendsBut)
  then have ab: "agreeBelow t a h g"
    using at(2) by (rule extendsBut_agreeBelow)
  from l Union have ls: "leafReadys t h ts" by simp
  from u have uu: "checkUnion js h v ts name = Inl (h', True)" by simp
  from leaf_same_kind_union [OF uu ls ab pl at(1) pv pj]
  obtain g' where "checkUnion js g v ts name = Inl (g', True)" "extends g g'"
    by auto
  with u Union show ?thesis by auto
next
  case (Struct fs)
  with l show ?thesis by simp
qed
lemma getProp_setProp_other:
  "k' \<noteq> k \<Longrightarrow> getProp (setProp ps k w) k' = getProp ps k'"
  by (induction ps) auto

lemma keys_setProp:
  "fst ` set (setProp ps k w) = insert k (fst ` set ps)"
proof (induction ps)
  case Nil
  show ?case by simp
next
  case (Cons p ps)
  obtain k' w' where p: "p = (k', w')" by (cases p)
  show ?case
  proof (cases "k' = k")
    case True
    with p show ?thesis by simp
  next
    case False
    with p Cons show ?thesis by (simp add: insert_commute)
  qed
qed

lemma setProp_same:
  "k \<in> fst ` set ps \<Longrightarrow> setProp ps k (getProp ps k) = ps"
proof (induction ps)
  case Nil
  then show ?case by simp
next
  case (Cons p ps)
  obtain k' w' where p: "p = (k', w')" by (cases p)
  show ?case
  proof (cases "k' = k")
    case True
    with p show ?thesis by simp
  next
    case False
    with p Cons.prems have "k \<in> fst ` set ps" by auto
    with Cons.IH False p show ?thesis by simp
  qed
qed

lemma writeField_plain:
  assumes "isPlainCell h a"
  shows "extendsBut a h (writeField h (VRef a) k w)"
    and "top (writeField h (VRef a) k w) = top h"
    and "readField (writeField h (VRef a) k w) (VRef a) k = w"
    and "k' \<noteq> k \<Longrightarrow> readField (writeField h (VRef a) k w) (VRef a) k' = readField h (VRef a) k'"
    and "hasKey (writeField h (VRef a) k w) a k"
    and "hasKey h a k' \<Longrightarrow> hasKey (writeField h (VRef a) k w) a k'"
proof -
  from assms obtain ps where ps: "cells h a = Obj Plain ps"
    by (auto simp: isPlainCell_def split: obj.splits kind.splits)
  then have w: "writeField h (VRef a) k w = h\<lparr>cells := (cells h)(a := Obj Plain (setProp ps k w))\<rparr>"
    by (simp add: writeField_def)
  show "extendsBut a h (writeField h (VRef a) k w)"
    using assms by (simp add: w extendsBut_def isPlainCell_def)
  show "top (writeField h (VRef a) k w) = top h"
    by (simp add: w)
  show "readField (writeField h (VRef a) k w) (VRef a) k = w"
    by (simp add: w readField_def getProp_setProp)
  show "k' \<noteq> k \<Longrightarrow> readField (writeField h (VRef a) k w) (VRef a) k' = readField h (VRef a) k'"
    by (simp add: w ps readField_def getProp_setProp_other)
  show "hasKey (writeField h (VRef a) k w) a k"
    by (simp add: w hasKey_def keys_setProp)
  show "hasKey h a k' \<Longrightarrow> hasKey (writeField h (VRef a) k w) a k'"
    by (simp add: w ps hasKey_def keys_setProp)
qed

lemma extendsBut_trans:
  "extendsBut a h h' \<Longrightarrow> extendsBut a h' h'' \<Longrightarrow> extendsBut a h h''"
  by (auto simp: extendsBut_def)

lemma extends_imp_extendsBut:
  "extends h h' \<Longrightarrow> isPlainCell h a \<Longrightarrow> a < top h \<Longrightarrow> extendsBut a h h'"
  by (auto simp: extends_def extendsBut_def isPlainCell_def)

lemma extendsBut_extends:
  "extendsBut a h h' \<Longrightarrow> extends h' h'' \<Longrightarrow> a < top h \<Longrightarrow> extendsBut a h h''"
  by (auto simp: extends_def extendsBut_def isPlainCell_def)

lemma extends_same_cell:
  "extends h h' \<Longrightarrow> a < top h \<Longrightarrow> cells h' a = cells h a"
  by (simp add: extends_def)

lemma readField_extends:
  "extends h h' \<Longrightarrow> a < top h \<Longrightarrow> readField h' (VRef a) k = readField h (VRef a) k"
  by (simp add: readField_def extends_same_cell)

lemma hasKey_extends:
  "extends h h' \<Longrightarrow> a < top h \<Longrightarrow> hasKey h' a k = hasKey h a k"
  by (simp add: hasKey_def extends_same_cell)


lemma fields_frame:
  assumes "checkFields js h (VRef a) fs name = (H, r)"
    and "\<forall>f\<in>set fs. leafReady t h0 (snd f)"
    and "isPlainCell h a" "a < top h"
  shows "extendsBut a h H
    \<and> (\<forall>k. k \<notin> fst ` set fs \<longrightarrow> readField H (VRef a) k = readField h (VRef a) k)
    \<and> (\<forall>k. hasKey h a k \<longrightarrow> hasKey H a k)"
  using assms
proof (induction fs arbitrary: h)
  case Nil
  then show ?case by (simp add: extendsBut_def)
next
  case (Cons f fs)
  obtain k d where f: "f = (k, d)" by (cases f)
  obtain h1 r1 where c: "checkType js h (readField h (VRef a) k) d (name @ ''.'' @ k) = (h1, r1)"
    by (cases "checkType js h (readField h (VRef a) k) d (name @ ''.'' @ k)")
  from Cons.prems(2) f have l: "leafReady t h0 d" by simp
  have e1: "extends h h1"
    using leaf_extends [OF c l] .
  have b1: "extendsBut a h h1"
    using e1 Cons.prems(3,4) by (rule extends_imp_extendsBut)
  have p1: "isPlainCell h1 a"
    using b1 by (simp add: extendsBut_def)
  have t1: "a < top h1"
    using e1 Cons.prems(4) by (simp add: extends_def)
  show ?case
  proof (cases r1)
    case (Value w)
    let ?h2 = "writeField h1 (VRef a) k w"
    from Cons.prems(1) f c Value have run: "checkFields js ?h2 (VRef a) fs name = (H, r)"
      by simp
    note w = writeField_plain [OF p1, where k = k and w = w]
    have p2: "isPlainCell ?h2 a" using w(1) by (simp add: extendsBut_def)
    have t2: "a < top ?h2" using w(2) t1 by simp
    from Cons.prems(2) have ls: "\<forall>f\<in>set fs. leafReady t h0 (snd f)" by simp
    note ih = Cons.IH [OF run ls p2 t2]
    have "extendsBut a h H"
      using b1 w(1) ih by (blast intro: extendsBut_trans)
    moreover have "\<forall>k'. k' \<notin> fst ` set (f # fs) \<longrightarrow>
        readField H (VRef a) k' = readField h (VRef a) k'"
    proof (intro allI impI)
      fix k'
      assume n: "k' \<notin> fst ` set (f # fs)"
      with f have "k' \<noteq> k" "k' \<notin> fst ` set fs" by auto
      with ih w(4) [of k'] readField_extends [OF e1 Cons.prems(4), of k']
      show "readField H (VRef a) k' = readField h (VRef a) k'" by simp
    qed
    moreover have "\<forall>k'. hasKey h a k' \<longrightarrow> hasKey H a k'"
      using ih w(6) hasKey_extends [OF e1 Cons.prems(4)] by simp
    ultimately show ?thesis by blast
  next
    case (Failure m)
    with Cons.prems(1) f c have "H = h1" by simp
    with b1 e1 Cons.prems(4) show ?thesis
      by (simp add: readField_extends hasKey_extends)
  next
    case (Throws e)
    with Cons.prems(1) f c have "H = h1" by simp
    with b1 e1 Cons.prems(4) show ?thesis
      by (simp add: readField_extends hasKey_extends)
  qed
qed

lemma writeField_same:
  assumes "isPlainCell h a" "hasKey h a k"
  shows "writeField h (VRef a) k (readField h (VRef a) k) = h"
proof -
  from assms(1) obtain ps where ps: "cells h a = Obj Plain ps"
    by (auto simp: isPlainCell_def split: obj.splits kind.splits)
  with assms(2) have "k \<in> fst ` set ps"
    by (simp add: hasKey_def)
  then have "setProp ps k (getProp ps k) = ps"
    by (rule setProp_same)
  with ps have "(cells h)(a := Obj Plain (setProp ps k (getProp ps k))) = cells h"
    by (simp add: fun_upd_idem)
  with ps show ?thesis
    by (simp add: writeField_def readField_def)
qed

lemma fields_again:
  assumes "\<forall>f\<in>set fs. hasKey H a (fst f)
      \<and> (\<forall>G. extends H G \<longrightarrow>
            (\<exists>G'. checkType js G (readField H (VRef a) (fst f)) (snd f) (name @ ''.'' @ fst f)
                    = (G', Value (readField H (VRef a) (fst f))) \<and> extends G G'))"
    and "isPlainCell H a" "a < top H" "extends H G"
  shows "\<exists>G'. checkFields js G (VRef a) fs name = (G', Value (VRef a)) \<and> extends G G'"
  using assms
proof (induction fs arbitrary: G)
  case Nil
  then show ?case by (simp add: extends_refl)
next
  case (Cons f fs)
  obtain k d where f: "f = (k, d)" by (cases f)
  let ?v = "readField H (VRef a) k"
  have rd: "readField G (VRef a) k = ?v"
    using Cons.prems(4,3) by (rule readField_extends)
  from Cons.prems(1,4) f obtain G1 where
    c: "checkType js G ?v d (name @ ''.'' @ k) = (G1, Value ?v)" and e: "extends G G1"
    by auto
  have e1: "extends H G1"
    using Cons.prems(4) e by (rule extends_trans)
  have p1: "isPlainCell G1 a"
    using Cons.prems(2) e1 Cons.prems(3) by (rule isPlainCell_extends)
  from Cons.prems(1) f have "hasKey H a k" by simp
  then have k1: "hasKey G1 a k"
    using hasKey_extends [OF e1 Cons.prems(3)] by simp
  have r1: "readField G1 (VRef a) k = ?v"
    using e1 Cons.prems(3) by (rule readField_extends)
  have w: "writeField G1 (VRef a) k ?v = G1"
    using writeField_same [OF p1 k1] r1 by simp
  from Cons.prems(1) have tl: "\<forall>f\<in>set fs. hasKey H a (fst f)
      \<and> (\<forall>G. extends H G \<longrightarrow>
            (\<exists>G'. checkType js G (readField H (VRef a) (fst f)) (snd f) (name @ ''.'' @ fst f)
                    = (G', Value (readField H (VRef a) (fst f))) \<and> extends G G'))"
    by simp
  from Cons.IH [OF tl Cons.prems(2,3) e1] obtain G2 where
    g2: "checkFields js G1 (VRef a) fs name = (G2, Value (VRef a))" "extends G1 G2"
    by blast
  have "checkFields js G (VRef a) (f # fs) name = (G2, Value (VRef a))"
    using f rd c w g2(1) by simp
  moreover have "extends G G2"
    using e g2(2) by (rule extends_trans)
  ultimately show ?case by blast
qed

lemma fields_accepted:
  assumes "checkFields js h (VRef a) fs name = (H, Value w)"
    and "distinct (map fst fs)"
    and "\<forall>f\<in>set fs. fieldReady t h a f"
    and "a < t" "t \<le> top h"
    and "isPlainCell h a"
    and "pureOnPrimitives js"
  shows "\<forall>f\<in>set fs. hasKey H a (fst f)
      \<and> (\<forall>G. extends H G \<longrightarrow>
            (\<exists>G'. checkType js G (readField H (VRef a) (fst f)) (snd f) (name @ ''.'' @ fst f)
                    = (G', Value (readField H (VRef a) (fst f))) \<and> extends G G'))"
  using assms
proof (induction fs arbitrary: h)
  case Nil
  then show ?case by simp
next
  case (Cons f fs)
  obtain k d where f: "f = (k, d)" by (cases f)
  let ?n = "name @ ''.'' @ k"
  obtain h1 r1 where c0: "checkType js h (readField h (VRef a) k) d ?n = (h1, r1)"
    by (cases "checkType js h (readField h (VRef a) k) d ?n")
  from Cons.prems(1) f c0 obtain w1 where r1: "r1 = Value w1"
    by (cases r1) simp_all
  with c0 have c: "checkType js h (readField h (VRef a) k) d ?n = (h1, Value w1)" by simp
  let ?h2 = "writeField h1 (VRef a) k w1"
  from Cons.prems(1) f c have run: "checkFields js ?h2 (VRef a) fs name = (H, Value w)"
    by simp
  from Cons.prems(3) f have fr: "fieldReady t h a (k, d)" by simp
  then have l: "leafReady t h d"
    and vr: "case d of Builtin ty \<Rightarrow> (case readField h (VRef a) k of VRef b \<Rightarrow> b < t | _ \<Rightarrow> True)
             | _ \<Rightarrow> isPrimitive (readField h (VRef a) k)"
    by (simp_all add: fieldReady_def cong: descr.case_cong val.case_cong)
  have ah: "a < top h" using Cons.prems(4,5) by simp
  have e1: "extends h h1" using leaf_extends [OF c l] .
  have p1: "isPlainCell h1 a" using Cons.prems(6) e1 ah by (rule isPlainCell_extends)
  have t1: "t \<le> top h1" using e1 Cons.prems(5) by (simp add: extends_def)
  have a1: "a < top h1" using t1 Cons.prems(4) by simp
  note wr = writeField_plain [OF p1, where k = k and w = w1]
  have p2: "isPlainCell ?h2 a" using wr(1) by (simp add: extendsBut_def)
  have t2: "t \<le> top ?h2" using wr(2) t1 by simp
  have a2: "a < top ?h2" using wr(2) a1 by simp
  have b12: "extendsBut a h ?h2"
    using extends_imp_extendsBut [OF e1 Cons.prems(6) ah] wr(1) by (rule extendsBut_trans)
  have ab: "agreeBelow t a h ?h2"
    using b12 Cons.prems(5) by (rule extendsBut_agreeBelow)
  have ready2: "\<forall>f'\<in>set fs. fieldReady t ?h2 a f'"
  proof
    fix f'
    assume m: "f' \<in> set fs"
    with Cons.prems(2) f have ne: "fst f' \<noteq> k" by auto
    from m Cons.prems(3) have r: "fieldReady t h a f'" by simp
    then have "leafReady t h (snd f')" by (simp add: fieldReady_def)
    then have l2: "leafReady t ?h2 (snd f')"
      using ab Cons.prems(6) by (rule leafReady_agree)
    have "readField ?h2 (VRef a) (fst f') = readField h (VRef a) (fst f')"
      using wr(4) [OF ne] readField_extends [OF e1 ah, of "fst f'"] by simp
    with r l2 show "fieldReady t ?h2 a f'"
      by (simp add: fieldReady_def cong: descr.case_cong val.case_cong)
  qed
  from Cons.prems(2) have dist: "distinct (map fst fs)" by simp
  note ih = Cons.IH [OF run dist ready2 Cons.prems(4) t2 p2 Cons.prems(7)]
  have leafs: "\<forall>f'\<in>set fs. leafReady t h (snd f')"
    using Cons.prems(3) by (simp add: fieldReady_def)
  note fr2 = fields_frame [OF run leafs p2 a2]
  from Cons.prems(2) f have "k \<notin> fst ` set fs" by auto
  with fr2 wr(3) have rk: "readField H (VRef a) k = w1" by simp
  from fr2 wr(5) have hk: "hasKey H a k" by simp
  have b1H: "extendsBut a h1 H"
    using wr(1) fr2 by (blast intro: extendsBut_trans)
  have head: "\<forall>G. extends H G \<longrightarrow>
      (\<exists>G'. checkType js G w1 d ?n = (G', Value w1) \<and> extends G G')"
  proof (intro allI impI)
    fix G
    assume "extends H G"
    with b1H have "extendsBut a h1 G"
      using a1 by (rule extendsBut_extends)
    from leaf_accepted [OF c l vr Cons.prems(4,5,6,7) this]
    show "\<exists>G'. checkType js G w1 d ?n = (G', Value w1) \<and> extends G G'" .
  qed
  show ?case
    using f hk rk head ih by simp
qed

lemma getType_plain: "isPlainCell h a \<Longrightarrow> getType h (VRef a) = T_Object"
  by (auto simp: isPlainCell_def getType_def split: obj.splits)



end
